theory Spec2Isabelle
  imports Complex_Main
begin

section \<open>The document: elements, inline styles, class lists\<close>

text \<open>
  The script (\<^verbatim>\<open>script.js\<close>) works on the browser's document. An element is modelled
  with the three things the script reads or writes: its class list, its inline style and
  the outcome of its \<^verbatim>\<open>getBBox()\<close> query (which may throw). Every write the script
  performs on an element is also appended to the element's \<open>writes\<close> log, so that
  "how many assignments" is a property of the model. A JavaScript number is modelled by the
  real value of the IEEE-754 double it is (its rounded arithmetic is defined below); a
  template literal such as \<^verbatim>\<open>`${d}s`\<close> is a constructor applied to the number.
\<close>

datatype css =
    Lit string
  | PxPair real real
  | Seconds real

datatype dom_write = StyleSet string css | ClassAdd string

datatype exn = DOMException

datatype svgrect = SVGRect real real real real

fun rect_x :: "svgrect \<Rightarrow> real" where "rect_x (SVGRect a b w h) = a"
fun rect_y :: "svgrect \<Rightarrow> real" where "rect_y (SVGRect a b w h) = b"
fun rect_width :: "svgrect \<Rightarrow> real" where "rect_width (SVGRect a b w h) = w"
fun rect_height :: "svgrect \<Rightarrow> real" where "rect_height (SVGRect a b w h) = h"

record element =
  classList :: "string list"
  style :: "string \<Rightarrow> css option"
  getBBox :: "exn + svgrect"
  writes :: "dom_write list"

text \<open>\<^verbatim>\<open>el.style.prop = v\<close>\<close>

definition setStyle :: "string \<Rightarrow> css \<Rightarrow> element \<Rightarrow> element" where
  "setStyle p v e = e\<lparr>style := (style e)(p \<mapsto> v), writes := writes e @ [StyleSet p v]\<rparr>"

text \<open>\<^verbatim>\<open>el.classList.add(c)\<close>: the class list is a set, adding a present class keeps it.\<close>

definition classList_add :: "string \<Rightarrow> element \<Rightarrow> element" where
  "classList_add c e =
     e\<lparr>classList := (if c \<in> set (classList e) then classList e else classList e @ [c]),
       writes := writes e @ [ClassAdd c]\<rparr>"

definition hasClass :: "string \<Rightarrow> element \<Rightarrow> bool" where
  "hasClass c e = (c \<in> set (classList e))"

text \<open>
  The document is the list of its elements in document order; a node reference is a
  position in that list. \<^verbatim>\<open>querySelectorAll\<close> returns the matching positions in
  document order, \<^verbatim>\<open>querySelector\<close> the first of them or null.
\<close>

definition querySelectorAll :: "(element \<Rightarrow> bool) \<Rightarrow> element list \<Rightarrow> nat list" where
  "querySelectorAll sel d = filter (\<lambda>i. sel (d ! i)) [0..<length d]"

definition querySelector :: "(element \<Rightarrow> bool) \<Rightarrow> element list \<Rightarrow> nat option" where
  "querySelector sel d = (case querySelectorAll sel d of [] \<Rightarrow> None | i # _ \<Rightarrow> Some i)"

text \<open>\<^verbatim>\<open>'.feature-card, .content-card, .faq-item, .contact-card'\<close>\<close>

definition sel_animated :: "element \<Rightarrow> bool" where
  "sel_animated e =
     (hasClass ''feature-card'' e \<or> hasClass ''content-card'' e \<or>
      hasClass ''faq-item'' e \<or> hasClass ''contact-card'' e)"

text \<open>\<^verbatim>\<open>'.foam-cell:not(.interstitial)'\<close>\<close>

definition sel_foamCell :: "element \<Rightarrow> bool" where
  "sel_foamCell e = (hasClass ''foam-cell'' e \<and> \<not> hasClass ''interstitial'' e)"

text \<open>\<^verbatim>\<open>'.foam-cell.interstitial'\<close>\<close>

definition sel_interstitial :: "element \<Rightarrow> bool" where
  "sel_interstitial e = (hasClass ''foam-cell'' e \<and> hasClass ''interstitial'' e)"

text \<open>\<^verbatim>\<open>'.foam-cells'\<close>\<close>

definition sel_foamCells :: "element \<Rightarrow> bool" where
  "sel_foamCells e = hasClass ''foam-cells'' e"

section \<open>The page state\<close>

text \<open>
  Besides the document, the page holds what the script registers with the browser:
  the targets of the one intersection observer, the pending \<^verbatim>\<open>setTimeout\<close> callbacks
  (delay in milliseconds and the element the closure reveals) and the callbacks passed to
  \<^verbatim>\<open>requestAnimationFrame\<close> (the closure over the two node lists).
\<close>

datatype frame_cb = FoamFrame "nat list" "nat list"

record page =
  doc :: "element list"
  hasIntersectionObserver :: bool
  observed :: "nat list"
  timers :: "(nat \<times> nat) list"
  frames :: "frame_cb list"

record entry =
  target :: nat
  isIntersecting :: bool

section \<open>initScrollAnimations\<close>

text \<open>\<^verbatim>\<open>nodes.forEach(el => f(el))\<close> for a callback that mutates its element.\<close>

fun forEach_nodes :: "(element \<Rightarrow> element) \<Rightarrow> nat list \<Rightarrow> element list \<Rightarrow> element list" where
  "forEach_nodes f [] d = d"
| "forEach_nodes f (p # ps) d = forEach_nodes f ps (d[p := f (d ! p)])"

text \<open>The three assignments of the "initial state" loop, in source order.\<close>

definition initialState :: "element \<Rightarrow> element" where
  "initialState el =
     setStyle ''transition'' (Lit ''opacity 0.5s ease, transform 0.5s ease'')
       (setStyle ''transform'' (Lit ''translateY(20px)'')
         (setStyle ''opacity'' (Lit ''0'') el))"

definition observe :: "nat \<Rightarrow> nat list \<Rightarrow> nat list" where
  "observe p obs = (if p \<in> set obs then obs else obs @ [p])"

definition unobserve :: "nat \<Rightarrow> nat list \<Rightarrow> nat list" where
  "unobserve p obs = filter (\<lambda>q. q \<noteq> p) obs"

definition initScrollAnimations :: "page \<Rightarrow> page" where
  "initScrollAnimations s =
     (if \<not> hasIntersectionObserver s then s
      else let animatedElements = querySelectorAll sel_animated (doc s) in
        if animatedElements = [] then s
        else s\<lparr>doc := forEach_nodes initialState animatedElements (doc s),
               observed := fold observe animatedElements []\<rparr>)"

text \<open>
  The observer's callback: \<^verbatim>\<open>entries.forEach((entry, index) => ...)\<close>. The index is the
  position in \<open>entries\<close>; an intersecting entry schedules its reveal after
  \<open>index * 100\<close> ms and is unobserved.
\<close>

fun entries_forEach :: "entry list \<Rightarrow> nat \<Rightarrow> page \<Rightarrow> page" where
  "entries_forEach [] index s = s"
| "entries_forEach (en # ens) index s =
     entries_forEach ens (Suc index)
       (if isIntersecting en
        then s\<lparr>observed := unobserve (target en) (observed s),
               timers := timers s @ [(index * 100, target en)]\<rparr>
        else s)"

definition observer_callback :: "entry list \<Rightarrow> page \<Rightarrow> page" where
  "observer_callback entries s = entries_forEach entries 0 s"

text \<open>The closure passed to \<^verbatim>\<open>setTimeout\<close>, run on its target.\<close>

definition reveal :: "element \<Rightarrow> element" where
  "reveal el = setStyle ''transform'' (Lit ''translateY(0)'') (setStyle ''opacity'' (Lit ''1'') el)"

text \<open>The browser runs the \<open>k\<close>-th pending timer and drops it from the pending list.\<close>

definition fire_timer :: "nat \<Rightarrow> page \<Rightarrow> page" where
  "fire_timer k s =
     (if k < length (timers s)
      then let t = snd (timers s ! k) in
        s\<lparr>doc := (doc s)[t := reveal (doc s ! t)],
          timers := take k (timers s) @ drop (Suc k) (timers s)\<rparr>
      else s)"

text \<open>
  What the browser does after initialisation: it delivers a batch of entries to the
  observer's callback, or it runs a pending timer. The browser only reports targets that
  the observer currently observes; \<open>wf_run\<close> checks this along a run.
\<close>

datatype event = Notify "entry list" | Fire nat

fun step :: "event \<Rightarrow> page \<Rightarrow> page" where
  "step (Notify entries) s = observer_callback entries s"
| "step (Fire k) s = fire_timer k s"

fun run :: "event list \<Rightarrow> page \<Rightarrow> page" where
  "run [] s = s"
| "run (ev # evs) s = run evs (step ev s)"

fun wf_event :: "event \<Rightarrow> page \<Rightarrow> bool" where
  "wf_event (Notify entries) s = list_all (\<lambda>en. target en \<in> set (observed s)) entries"
| "wf_event (Fire k) s = (k < length (timers s))"

fun wf_run :: "event list \<Rightarrow> page \<Rightarrow> bool" where
  "wf_run [] s = True"
| "wf_run (ev # evs) s = (wf_event ev s \<and> wf_run evs (step ev s))"

section \<open>JavaScript numbers\<close>

text \<open>
  JavaScript numbers are IEEE-754 binary64 values and every arithmetic operation returns
  the exact result rounded to the nearest double, ties to even. \<open>fl\<close> is that rounding:
  a non-zero \<open>x\<close> with \<open>2^e \<le> |x| < 2^(e+1)\<close> is rounded to a multiple of \<open>2^(e-52)\<close>;
  the exponent \<open>e\<close> is found by halving or doubling \<open>|x|\<close> until it is in \<open>[1, 2)\<close>.
  The exponent range is not bounded here: overflow to infinity and gradual underflow,
  which the values of this program stay far from, are left out. A decimal literal that is
  not a double (\<^verbatim>\<open>0.8\<close>, \<^verbatim>\<open>0.6\<close>) denotes its rounding.
\<close>

definition round_ties_even :: "real \<Rightarrow> int" where
  "round_ties_even y =
     (let f = \<lfloor>y\<rfloor> in
      if y - of_int f < 1 / 2 then f
      else if 1 / 2 < y - of_int f then f + 1
      else if even f then f else f + 1)"

function exponent_up :: "real \<Rightarrow> int \<Rightarrow> int" where
  "exponent_up x e = (if x < 2 then e else exponent_up (x / 2) (e + 1))"
  by pat_completeness auto
termination
proof (relation "measure (\<lambda>(x, e). nat \<lfloor>x\<rfloor>)")
  show "wf (measure (\<lambda>(x, e). nat \<lfloor>x\<rfloor>))" by simp
next
  fix x :: real and e :: int
  assume "\<not> x < 2"
  then have x: "2 \<le> x" by simp
  have "of_int \<lfloor>x / 2\<rfloor> \<le> x / 2" by (rule of_int_floor_le)
  moreover have "(of_int (\<lfloor>x / 2\<rfloor> + 1) :: real) = of_int \<lfloor>x / 2\<rfloor> + 1" by simp
  ultimately have "of_int (\<lfloor>x / 2\<rfloor> + 1) \<le> x" using x by linarith
  then have "\<lfloor>x / 2\<rfloor> + 1 \<le> \<lfloor>x\<rfloor>" by (simp only: le_floor_iff)
  moreover have "0 \<le> \<lfloor>x / 2\<rfloor>" using x by simp
  ultimately have "0 < \<lfloor>x\<rfloor> \<and> \<lfloor>x / 2\<rfloor> < \<lfloor>x\<rfloor>" by linarith
  then have "nat \<lfloor>x / 2\<rfloor> < nat \<lfloor>x\<rfloor>" by (simp only: zless_nat_conj)
  then show "((x / 2, e + 1), (x, e)) \<in> measure (\<lambda>(x, e). nat \<lfloor>x\<rfloor>)"
    unfolding in_measure case_prod_conv .
qed

function exponent_down :: "real \<Rightarrow> int \<Rightarrow> int" where
  "exponent_down x e = (if x \<le> 0 \<or> 1 \<le> x then e else exponent_down (x * 2) (e - 1))"
  by pat_completeness auto
termination
proof (relation "measure (\<lambda>(x, e). nat \<lfloor>1 / x\<rfloor>)")
  show "wf (measure (\<lambda>(x, e). nat \<lfloor>1 / x\<rfloor>))" by simp
next
  fix x :: real and e :: int
  assume "\<not> (x \<le> 0 \<or> 1 \<le> x)"
  then have x: "0 < x" "x < 1" by simp_all
  define y where "y = 1 / x"
  have y: "1 < y" unfolding y_def using x by simp
  have half: "1 / (x * 2) = y / 2" by (simp add: y_def)
  have "\<lfloor>y / 2\<rfloor> + 1 \<le> \<lfloor>y\<rfloor>"
  proof (cases "2 \<le> y")
    case True
    have "of_int \<lfloor>y / 2\<rfloor> \<le> y / 2" by (rule of_int_floor_le)
    moreover have "(of_int (\<lfloor>y / 2\<rfloor> + 1) :: real) = of_int \<lfloor>y / 2\<rfloor> + 1" by simp
    ultimately have "of_int (\<lfloor>y / 2\<rfloor> + 1) \<le> y" using True by linarith
    then show ?thesis by (simp only: le_floor_iff)
  next
    case False
    then have "\<lfloor>y / 2\<rfloor> = 0" using y by (simp add: floor_eq_iff)
    moreover have "1 \<le> \<lfloor>y\<rfloor>" using y by (simp add: le_floor_iff)
    ultimately show ?thesis by simp
  qed
  moreover have "0 \<le> \<lfloor>y / 2\<rfloor>" using y by simp
  ultimately have "0 < \<lfloor>y\<rfloor> \<and> \<lfloor>y / 2\<rfloor> < \<lfloor>y\<rfloor>" by linarith
  then have "nat \<lfloor>y / 2\<rfloor> < nat \<lfloor>y\<rfloor>" by (simp only: zless_nat_conj)
  then have "nat \<lfloor>1 / (x * 2)\<rfloor> < nat \<lfloor>1 / x\<rfloor>" unfolding half y_def .
  then show "((x * 2, e - 1), (x, e)) \<in> measure (\<lambda>(x, e). nat \<lfloor>1 / x\<rfloor>)"
    unfolding in_measure case_prod_conv .
qed

definition binade :: "real \<Rightarrow> int" where
  "binade x = (if 1 \<le> \<bar>x\<bar> then exponent_up \<bar>x\<bar> 0 else exponent_down \<bar>x\<bar> 0)"

definition ulp :: "real \<Rightarrow> real" where
  "ulp x = 2 powi (binade x - 52)"

definition fl :: "real \<Rightarrow> real" where
  "fl x = (if x = 0 then 0 else of_int (round_ties_even (x / ulp x)) * ulp x)"

declare exponent_up.simps [simp del] exponent_down.simps [simp del]

definition js_add :: "real \<Rightarrow> real \<Rightarrow> real" where
  "js_add x y = fl (x + y)"

definition js_sub :: "real \<Rightarrow> real \<Rightarrow> real" where
  "js_sub x y = fl (x - y)"

definition js_mul :: "real \<Rightarrow> real \<Rightarrow> real" where
  "js_mul x y = fl (x * y)"

definition js_div :: "real \<Rightarrow> real \<Rightarrow> real" where
  "js_div x y = fl (x / y)"

section \<open>initFoamAnimation\<close>

text \<open>
  \<^verbatim>\<open>Math.random()\<close>: the generator is the sequence of the draws still to come; a call
  returns the first and leaves the rest.
\<close>

type_synonym rng = "nat \<Rightarrow> real"

definition Math_random :: "rng \<Rightarrow> real \<times> rng" where
  "Math_random g = (g 0, \<lambda>n. g (Suc n))"

definition unit_draws :: "rng \<Rightarrow> bool" where
  "unit_draws g = (\<forall>n. 0 \<le> g n \<and> g n < 1)"

text \<open>The \<^verbatim>\<open>try\<close> block of the loop over the main cells.\<close>

definition foamCell_try :: "element \<Rightarrow> nat \<Rightarrow> rng \<Rightarrow> exn + (element \<times> rng)" where
  "foamCell_try cell index g =
     (case getBBox cell of
        Inl ex \<Rightarrow> Inl ex
      | Inr bbox \<Rightarrow>
          let centerX = js_add (rect_x bbox) (js_div (rect_width bbox) 2);
              centerY = js_add (rect_y bbox) (js_div (rect_height bbox) 2);
              c1 = setStyle ''transformOrigin'' (PxPair centerX centerY) cell;
              c2 = (if index mod 2 = 1 then classList_add ''phase-contract'' c1 else c1);
              baseDelay = js_mul (real index) (- 1.5);
              (r1, g1) = Math_random g;
              randomOffset = js_mul (js_sub r1 0.5) (fl 0.8);
              c3 = setStyle ''animationDelay'' (Seconds (js_add baseDelay randomOffset)) c2;
              (r2, g2) = Math_random g1;
              durationVariation = js_mul (js_sub r2 0.5) 2;
              c4 = setStyle ''animationDuration'' (Seconds (js_add 20 durationVariation)) c3
          in Inr (c4, g2))"

text \<open>The whole callback: \<^verbatim>\<open>try { ... } catch (e) { cell.style.transformOrigin = 'center center' }\<close>\<close>

definition foamCell_cb :: "element \<Rightarrow> nat \<Rightarrow> rng \<Rightarrow> exn + (element \<times> rng)" where
  "foamCell_cb cell index g =
     (case foamCell_try cell index g of
        Inl ex \<Rightarrow> Inr (setStyle ''transformOrigin'' (Lit ''center center'') cell, g)
      | Inr r \<Rightarrow> Inr r)"

definition interstitial_try :: "element \<Rightarrow> nat \<Rightarrow> rng \<Rightarrow> exn + (element \<times> rng)" where
  "interstitial_try cell index g =
     (case getBBox cell of
        Inl ex \<Rightarrow> Inl ex
      | Inr bbox \<Rightarrow>
          let centerX = js_add (rect_x bbox) (js_div (rect_width bbox) 2);
              centerY = js_add (rect_y bbox) (js_div (rect_height bbox) 2);
              c1 = setStyle ''transformOrigin'' (PxPair centerX centerY) cell;
              (r1, g1) = Math_random g;
              delay = js_add (js_mul (real index) (- fl 0.6)) (js_mul (js_sub r1 0.5) 1.5);
              c2 = setStyle ''animationDelay'' (Seconds delay) c1;
              (r2, g2) = Math_random g1;
              duration = js_add 5 (js_mul (js_sub r2 0.5) 1.5);
              c3 = setStyle ''animationDuration'' (Seconds duration) c2
          in Inr (c3, g2))"

definition interstitial_cb :: "element \<Rightarrow> nat \<Rightarrow> rng \<Rightarrow> exn + (element \<times> rng)" where
  "interstitial_cb cell index g =
     (case interstitial_try cell index g of
        Inl ex \<Rightarrow> Inr (setStyle ''transformOrigin'' (Lit ''center center'') cell, g)
      | Inr r \<Rightarrow> Inr r)"

text \<open>
  \<^verbatim>\<open>cells.forEach((cell, index) => ...)\<close>: an exception that escapes the callback ends
  the loop and propagates.
\<close>

fun forEach_cells ::
  "(element \<Rightarrow> nat \<Rightarrow> rng \<Rightarrow> exn + (element \<times> rng)) \<Rightarrow> nat list \<Rightarrow> nat \<Rightarrow>
     element list \<Rightarrow> rng \<Rightarrow> exn + (element list \<times> rng)" where
  "forEach_cells cb [] index d g = Inr (d, g)"
| "forEach_cells cb (p # ps) index d g =
     (case cb (d ! p) index g of
        Inl ex \<Rightarrow> Inl ex
      | Inr (c, g') \<Rightarrow> forEach_cells cb ps (Suc index) (d[p := c]) g')"

text \<open>The body of the callback passed to \<^verbatim>\<open>requestAnimationFrame\<close>.\<close>

fun run_frame_cb :: "frame_cb \<Rightarrow> element list \<Rightarrow> rng \<Rightarrow> exn + (element list \<times> rng)" where
  "run_frame_cb (FoamFrame foamCells interstitialCells) d g =
     (case forEach_cells foamCell_cb foamCells 0 d g of
        Inl ex \<Rightarrow> Inl ex
      | Inr (d1, g1) \<Rightarrow> forEach_cells interstitial_cb interstitialCells 0 d1 g1)"

definition initFoamAnimation :: "page \<Rightarrow> page" where
  "initFoamAnimation s =
     (let foamCells = querySelectorAll sel_foamCell (doc s);
          interstitialCells = querySelectorAll sel_interstitial (doc s)
      in if foamCells = [] then s
         else case querySelector sel_foamCells (doc s) of
                None \<Rightarrow> s
              | Some svg \<Rightarrow> s\<lparr>frames := frames s @ [FoamFrame foamCells interstitialCells]\<rparr>)"

text \<open>The browser's next animation frame: it runs the requested callbacks in order.\<close>

fun run_frames :: "frame_cb list \<Rightarrow> element list \<Rightarrow> rng \<Rightarrow> exn + (element list \<times> rng)" where
  "run_frames [] d g = Inr (d, g)"
| "run_frames (f # fs) d g =
     (case run_frame_cb f d g of
        Inl ex \<Rightarrow> Inl ex
      | Inr (d', g') \<Rightarrow> run_frames fs d' g')"

definition animation_frame :: "page \<Rightarrow> rng \<Rightarrow> exn + (page \<times> rng)" where
  "animation_frame s g =
     (case run_frames (frames s) (doc s) g of
        Inl ex \<Rightarrow> Inl ex
      | Inr (d', g') \<Rightarrow> Inr (s\<lparr>doc := d', frames := []\<rparr>, g'))"

section \<open>Measures and example pages used in the statements\<close>

text \<open>
  \<open>pending t s\<close> counts the timers still to run whose closure reveals element \<open>t\<close>;
  \<open>style_budget t s\<close> is the number of writes element \<open>t\<close> has received plus the two
  writes each pending reveal of \<open>t\<close> will still make.
\<close>

definition pending :: "nat \<Rightarrow> page \<Rightarrow> nat" where
  "pending t s = length (filter (\<lambda>(d, x). x = t) (timers s))"

definition style_budget :: "nat \<Rightarrow> page \<Rightarrow> nat" where
  "style_budget t s = length (writes (doc s ! t)) + 2 * pending t s"

definition card :: "string \<Rightarrow> element" where
  "card c = \<lparr>classList = [c], style = (\<lambda>p. None), getBBox = Inl DOMException, writes = []\<rparr>"

definition two_cards :: page where
  "two_cards = \<lparr>doc = [card ''feature-card'', card ''faq-item''], hasIntersectionObserver = True,
                 observed = [], timers = [], frames = []\<rparr>"

definition cards_noIO :: page where
  "cards_noIO = \<lparr>doc = [card ''feature-card'',
                          (card ''faq-item'')\<lparr>style := [''opacity'' \<mapsto> Lit ''0'']\<rparr>],
                   hasIntersectionObserver = False, observed = [], timers = [], frames = []\<rparr>"

text \<open>
  For the timing assigner: the generator after \<open>m\<close> draws, the writes an element received
  between two states, the values assigned to one style property and the classes added in
  a list of writes, and the page after initialisation and the next animation frame.
\<close>

definition later :: "nat \<Rightarrow> rng \<Rightarrow> rng" where
  "later m g = (\<lambda>n. g (n + m))"

definition new_writes :: "element \<Rightarrow> element \<Rightarrow> dom_write list" where
  "new_writes old new = drop (length (writes old)) (writes new)"

fun assigned :: "string \<Rightarrow> dom_write list \<Rightarrow> css list" where
  "assigned p [] = []"
| "assigned p (StyleSet q v # ws) = (if q = p then v # assigned p ws else assigned p ws)"
| "assigned p (ClassAdd c # ws) = assigned p ws"

fun classes_added :: "dom_write list \<Rightarrow> string list" where
  "classes_added [] = []"
| "classes_added (StyleSet q v # ws) = classes_added ws"
| "classes_added (ClassAdd c # ws) = c # classes_added ws"

definition getBBox_throws :: "element \<Rightarrow> bool" where
  "getBBox_throws e = isl (getBBox e)"

definition seconds_within :: "real \<Rightarrow> real \<Rightarrow> css \<Rightarrow> bool" where
  "seconds_within lo hi v = (case v of Seconds x \<Rightarrow> lo \<le> x \<and> x \<le> hi | _ \<Rightarrow> False)"

definition foam_after :: "page \<Rightarrow> rng \<Rightarrow> page" where
  "foam_after s g = (case animation_frame (initFoamAnimation s) g of Inr (s', g') \<Rightarrow> s' | Inl ex \<Rightarrow> s)"

definition foam_cell :: "string list \<Rightarrow> exn + svgrect \<Rightarrow> element" where
  "foam_cell cls b = \<lparr>classList = cls, style = (\<lambda>p. None), getBBox = b, writes = []\<rparr>"

definition svg_container :: element where
  "svg_container = foam_cell [''foam-cells''] (Inr (SVGRect 0 0 100 100))"

definition primary_ok :: element where
  "primary_ok = foam_cell [''foam-cell''] (Inr (SVGRect 0 0 10 20))"

definition primary_throws :: element where
  "primary_throws = foam_cell [''foam-cell''] (Inl DOMException)"

definition interstitial_ok :: element where
  "interstitial_ok = foam_cell [''foam-cell'', ''interstitial''] (Inr (SVGRect 4 4 2 2))"

definition interstitial_throws :: element where
  "interstitial_throws = foam_cell [''foam-cell'', ''interstitial''] (Inl DOMException)"

definition foam_page :: "element list \<Rightarrow> page" where
  "foam_page d = \<lparr>doc = d, hasIntersectionObserver = True, observed = [], timers = [], frames = []\<rparr>"

definition quarter_draws :: rng where
  "quarter_draws = (\<lambda>n. 1 / 4)"

definition four_cells :: page where
  "four_cells = foam_page [svg_container, primary_ok, primary_ok, primary_ok, primary_ok, interstitial_ok]"

definition odd_cell_throws :: page where
  "odd_cell_throws = foam_page [svg_container, primary_ok, primary_throws]"

definition throwing_cells :: page where
  "throwing_cells = foam_page [svg_container, primary_throws, interstitial_throws]"

definition mixed_cells :: page where
  "mixed_cells = foam_page [svg_container, primary_throws, primary_ok, interstitial_throws, interstitial_ok]"

definition interstitial_only :: page where
  "interstitial_only = foam_page [svg_container, interstitial_ok]"

definition no_container :: page where
  "no_container = foam_page [primary_ok, interstitial_ok]"

text \<open>
  The values the two loop bodies compute, as functions of the index and the draw, and the
  documented delay bounds \<^verbatim>\<open>i * -1.5 - 0.4\<close>, \<^verbatim>\<open>i * -1.5 + 0.4\<close>, \<^verbatim>\<open>j * -0.6 - 0.75\<close>
  and \<^verbatim>\<open>j * -0.6 + 0.75\<close> evaluated as JavaScript expressions.
\<close>

definition bbox_center :: "svgrect \<Rightarrow> css" where
  "bbox_center bbox =
     PxPair (js_add (rect_x bbox) (js_div (rect_width bbox) 2))
            (js_add (rect_y bbox) (js_div (rect_height bbox) 2))"

definition primary_delay :: "nat \<Rightarrow> real \<Rightarrow> real" where
  "primary_delay i r = js_add (js_mul (real i) (- 1.5)) (js_mul (js_sub r 0.5) (fl 0.8))"

definition primary_duration :: "real \<Rightarrow> real" where
  "primary_duration r = js_add 20 (js_mul (js_sub r 0.5) 2)"

definition interstitial_delay :: "nat \<Rightarrow> real \<Rightarrow> real" where
  "interstitial_delay j r = js_add (js_mul (real j) (- fl 0.6)) (js_mul (js_sub r 0.5) 1.5)"

definition interstitial_duration :: "real \<Rightarrow> real" where
  "interstitial_duration r = js_add 5 (js_mul (js_sub r 0.5) 1.5)"

definition primary_delay_lo :: "nat \<Rightarrow> real" where
  "primary_delay_lo i = js_sub (js_mul (real i) (- 1.5)) (fl 0.4)"

definition primary_delay_hi :: "nat \<Rightarrow> real" where
  "primary_delay_hi i = js_add (js_mul (real i) (- 1.5)) (fl 0.4)"

definition interstitial_delay_lo :: "nat \<Rightarrow> real" where
  "interstitial_delay_lo j = js_sub (js_mul (real j) (- fl 0.6)) 0.75"

definition interstitial_delay_hi :: "nat \<Rightarrow> real" where
  "interstitial_delay_hi j = js_add (js_mul (real j) (- fl 0.6)) 0.75"

definition top_draws :: rng where
  "top_draws = (\<lambda>n. 4503599627370495 / 2 ^ 52)"

definition ten_interstitials :: page where
  "ten_interstitials = foam_page [svg_container, primary_ok, interstitial_ok, interstitial_ok, interstitial_ok, interstitial_ok, interstitial_ok, interstitial_ok, interstitial_ok, interstitial_ok, interstitial_ok, interstitial_ok]"

section \<open>Basic facts\<close>

lemma querySelectorAll_set: "set (querySelectorAll sel d) = {i. i < length d \<and> sel (d ! i)}"
  by (auto simp: querySelectorAll_def)

lemma querySelectorAll_distinct: "distinct (querySelectorAll sel d)"
  by (simp add: querySelectorAll_def)

lemma forEach_nodes_length: "length (forEach_nodes f ps d) = length d"
  by (induction ps arbitrary: d) auto


lemma setStyle_simps:
  "style (setStyle p v e) = (style e)(p \<mapsto> v)"
  "writes (setStyle p v e) = writes e @ [StyleSet p v]"
  "classList (setStyle p v e) = classList e"
  "getBBox (setStyle p v e) = getBBox e"
  by (simp_all add: setStyle_def)

lemma entries_forEach_doc: "doc (entries_forEach es k s) = doc s"
  by (induction es arbitrary: k s) auto

lemma entries_forEach_timers:
  "timers (entries_forEach es k s) =
     timers s @ map (\<lambda>(i, en). (i * 100, target en))
                  (filter (\<lambda>(i, en). isIntersecting en) (zip [k..<k + length es] es))"
proof (induction es arbitrary: k s)
  case Nil
  then show ?case by simp
next
  case (Cons en es)
  have upt: "[k..<k + length (en # es)] = k # [Suc k..<Suc k + length es]"
    using upt_conv_Cons [of k "k + Suc (length es)"] by simp
  show ?case
    unfolding upt by (simp add: Cons.IH del: upt_Suc)
qed

lemma entries_forEach_observed:
  "set (observed (entries_forEach es k s)) =
     set (observed s) - {target en |en. en \<in> set es \<and> isIntersecting en}"
  by (induction es arbitrary: k s) (auto simp: unobserve_def)

section \<open>The viewport entry animator\<close>

text \<open>
  Claim C1 (as amended). The delay of each scheduled reveal is 100 ms times the entry's
  position in the callback's \<open>entries\<close> list, counting the entries that do not intersect
  as well; when every entry of the batch intersects, the delays are
  \<open>0, 100, ..., (N - 1) * 100\<close> in batch order.
\<close>

theorem stagger_delay_is_entry_position:
  "timers (observer_callback entries s) =
     timers s @ map (\<lambda>(i, en). (i * 100, target en))
                  (filter (\<lambda>(i, en). isIntersecting en) (zip [0..<length entries] entries))
   \<and> (list_all isIntersecting entries \<longrightarrow>
        map fst (drop (length (timers s)) (timers (observer_callback entries s)))
          = map (\<lambda>k. k * 100) [0..<length entries])"
proof -
  have eq: "timers (observer_callback entries s) =
     timers s @ map (\<lambda>(i, en). (i * 100, target en))
                  (filter (\<lambda>(i, en). isIntersecting en) (zip [0..<length entries] entries))"
    using entries_forEach_timers [of entries 0 s] by (simp add: observer_callback_def)
  have all: "map fst (map (\<lambda>(i, en). (i * 100, target en))
                  (filter (\<lambda>(i, en). isIntersecting en) (zip [0..<length entries] entries)))
             = map (\<lambda>k. k * 100) [0..<length entries]"
    if "list_all isIntersecting entries"
  proof -
    have "filter (\<lambda>(i, en). isIntersecting en) (zip [0..<length entries] entries)
            = zip [0..<length entries] entries"
      using that by (auto simp: filter_id_conv list_all_iff dest: set_zip_rightD)
    moreover have "map fst (map (\<lambda>(i, en). (i * 100, target en)) (zip [0..<length entries] entries))
        = map (\<lambda>k. k * 100) (map fst (zip [0..<length entries] entries))"
      by (simp only: map_map comp_def case_prod_beta fst_conv)
    moreover have "map fst (zip [0..<length entries] entries) = [0..<length entries]"
      by (rule map_fst_zip) simp
    ultimately show ?thesis by (simp only:)
  qed
  show ?thesis using eq all by simp
qed

theorem stagger_delay_is_entry_position_witness:
  "list_all isIntersecting [\<lparr>target = 1, isIntersecting = True\<rparr>, \<lparr>target = 0, isIntersecting = True\<rparr>]
   \<and> map fst (drop (length (timers (initScrollAnimations two_cards)))
        (timers (observer_callback [\<lparr>target = 1, isIntersecting = True\<rparr>, \<lparr>target = 0, isIntersecting = True\<rparr>]
            (initScrollAnimations two_cards)))) = [0, 100]"
  using stagger_delay_is_entry_position [of "[\<lparr>target = 1, isIntersecting = True\<rparr>, \<lparr>target = 0, isIntersecting = True\<rparr>]"
       "initScrollAnimations two_cards"]
  by (simp add: upt_rec)

text \<open>
  The claim as stated fails when the batch holds an entry that does not intersect: the one
  intersecting element of this batch is first among the intersecting ones, yet its delay
  is 100 ms.
\<close>

theorem stagger_delay_counterexample:
  "map fst (timers (observer_callback
       [\<lparr>target = 0, isIntersecting = False\<rparr>, \<lparr>target = 1, isIntersecting = True\<rparr>]
       (initScrollAnimations two_cards))) = [100]
   \<and> map (\<lambda>k. k * 100)
        [0..<length (filter isIntersecting
           [\<lparr>target = 0, isIntersecting = False\<rparr>, \<lparr>target = 1, isIntersecting = True\<rparr>])] = [0::nat]"
  by (simp add: observer_callback_def initScrollAnimations_def two_cards_def querySelectorAll_def
        sel_animated_def hasClass_def card_def Let_def upt_rec)

lemma observer_callback_fields:
  "doc (observer_callback es s) = doc s"
  "set (observed (observer_callback es s)) =
     set (observed s) - {target en |en. en \<in> set es \<and> isIntersecting en}"
  by (simp_all add: observer_callback_def entries_forEach_doc entries_forEach_observed)

lemma observer_callback_pending:
  "pending t (observer_callback es s) =
     pending t s + length (filter (\<lambda>en. isIntersecting en \<and> target en = t) es)"
proof -
  have "length (filter (\<lambda>(d, x). x = t) (map (\<lambda>(i, en). (i * 100, target en))
           (filter (\<lambda>(i, en). isIntersecting en) (zip ns es))))
        = length (filter (\<lambda>en. isIntersecting en \<and> target en = t) es)"
    if "length ns = length es" for ns :: "nat list"
    using that by (induction ns es rule: list_induct2) auto
  from this [of "[0..<length es]"] show ?thesis
    using entries_forEach_timers [of es 0 s]
    by (simp add: pending_def observer_callback_def)
qed

lemma fire_timer_fields:
  "observed (fire_timer k s) = observed s"
  "length (doc (fire_timer k s)) = length (doc s)"
  by (simp_all add: fire_timer_def Let_def)

lemma reveal_writes:
  "writes (reveal el) = writes el @ [StyleSet ''opacity'' (Lit ''1''), StyleSet ''transform'' (Lit ''translateY(0)'')]"
  by (simp add: reveal_def setStyle_simps)

lemma fire_timer_budget:
  assumes "t < length (doc s)"
  shows "style_budget t (fire_timer k s) = style_budget t s"
proof (cases "k < length (timers s)")
  case False
  then show ?thesis by (simp add: fire_timer_def)
next
  case True
  obtain d x where dx: "timers s ! k = (d, x)" by (cases "timers s ! k")
  have split: "timers s = take k (timers s) @ (d, x) # drop (Suc k) (timers s)"
    using True dx id_take_nth_drop by metis
  have p: "pending t s = pending t (fire_timer k s) + (if x = t then 1 else 0)"
  proof -
    have "pending t s = length (filter (\<lambda>(d, x). x = t) (take k (timers s) @ (d, x) # drop (Suc k) (timers s)))"
      unfolding pending_def using split by simp
    then show ?thesis using True by (simp add: pending_def fire_timer_def Let_def)
  qed
  have w: "length (writes (doc (fire_timer k s) ! t)) = length (writes (doc s ! t)) + (if x = t then 2 else 0)"
    using True assms dx by (simp add: fire_timer_def Let_def nth_list_update reveal_writes)
  show ?thesis using p w by (simp add: style_budget_def)
qed

lemma run_keeps_unobserved:
  "t \<notin> set (observed s) \<Longrightarrow> t < length (doc s) \<Longrightarrow> wf_run evs s \<Longrightarrow>
   t \<notin> set (observed (run evs s)) \<and> style_budget t (run evs s) = style_budget t s"
proof (induction evs arbitrary: s)
  case Nil
  then show ?case by simp
next
  case (Cons ev evs)
  have wf: "wf_event ev s" and wfr: "wf_run evs (step ev s)" using Cons.prems(3) by auto
  have st: "t \<notin> set (observed (step ev s)) \<and> t < length (doc (step ev s))
            \<and> style_budget t (step ev s) = style_budget t s"
  proof (cases ev)
    case (Notify es)
    have "filter (\<lambda>en. isIntersecting en \<and> target en = t) es = []"
      using wf Cons.prems(1) Notify by (auto simp: list_all_iff filter_empty_conv)
    then have "pending t (observer_callback es s) = pending t s"
      by (simp add: observer_callback_pending)
    then show ?thesis
      using Cons.prems(1,2) Notify
      by (simp add: observer_callback_fields style_budget_def)
  next
    case (Fire k)
    then show ?thesis
      using Cons.prems(1,2) by (simp add: fire_timer_fields fire_timer_budget)
  qed
  show ?case using Cons.IH [of "step ev s"] st wfr by simp
qed

text \<open>
  Claim C2 (as amended). Once a callback has delivered an intersecting entry for an
  element, the element is no longer observed, and it stays so whatever the browser does
  next (further batches for the targets still observed, timers running in any order).
  From then on no callback schedules anything for it: the writes the element has received
  plus the writes of its pending reveals stay constant. That one callback schedules one
  reveal for each intersecting entry it holds for the element: exactly one when the
  targets of the batch are distinct.
\<close>

theorem reveals_only_from_first_callback:
  assumes "list_all (\<lambda>p. p < length (doc s)) (observed s)"
    and "wf_run (Notify entries # evs) s"
    and "en \<in> set entries" and "isIntersecting en"
  shows "target en \<notin> set (observed (observer_callback entries s))
       \<and> target en \<notin> set (observed (run (Notify entries # evs) s))
       \<and> style_budget (target en) (run (Notify entries # evs) s)
           = style_budget (target en) (observer_callback entries s)
       \<and> pending (target en) (observer_callback entries s)
           = pending (target en) s
             + length (filter (\<lambda>e. isIntersecting e \<and> target e = target en) entries)
       \<and> (distinct (map target entries) \<longrightarrow>
            pending (target en) (observer_callback entries s) = pending (target en) s + 1)"
proof -
  let ?s1 = "observer_callback entries s"
  have obs: "target en \<in> set (observed s)"
    using assms(2,3) by (auto simp: list_all_iff)
  then have len: "target en < length (doc ?s1)"
    using assms(1) by (auto simp: list_all_iff observer_callback_fields)
  have un: "target en \<notin> set (observed ?s1)"
    using assms(3,4) by (auto simp: observer_callback_fields)
  have wfr: "wf_run evs ?s1" using assms(2) by simp
  have one: "length (filter (\<lambda>e. isIntersecting e \<and> target e = target en) entries) = 1"
    if "distinct (map target entries)"
    using that assms(3,4)
  proof (induction entries)
    case Nil
    then show ?case by simp
  next
    case (Cons e es)
    show ?case
    proof (cases "e = en")
      case True
      have "target en \<notin> target ` set es" using Cons.prems(1) True by simp
      then have "\<forall>x\<in>set es. target x \<noteq> target en" by (metis image_eqI)
      then have "filter (\<lambda>e. isIntersecting e \<and> target e = target en) es = []"
        by (simp add: filter_empty_conv)
      then show ?thesis using True Cons.prems(3) by simp
    next
      case False
      then have "en \<in> set es" using Cons.prems(2) by simp
      moreover have "target e \<noteq> target en" using Cons.prems(1) calculation by auto
      ultimately show ?thesis using Cons.IH Cons.prems by simp
    qed
  qed
  show ?thesis
    using un run_keeps_unobserved [OF un len wfr] one
    by (simp add: observer_callback_pending)
qed


lemma two_cards_init:
  "observed (initScrollAnimations two_cards) = [0, 1]"
  "timers (initScrollAnimations two_cards) = []"
  "length (doc (initScrollAnimations two_cards)) = 2"
  by (simp_all add: initScrollAnimations_def two_cards_def querySelectorAll_def sel_animated_def
        hasClass_def card_def Let_def upt_rec observe_def)

theorem reveals_only_from_first_callback_witness:
  "list_all (\<lambda>p. p < length (doc (initScrollAnimations two_cards)))
      (observed (initScrollAnimations two_cards))
   \<and> wf_run (Notify [\<lparr>target = 0, isIntersecting = True\<rparr>, \<lparr>target = 1, isIntersecting = False\<rparr>]
              # [Fire 0, Notify [\<lparr>target = 1, isIntersecting = True\<rparr>], Fire 0])
        (initScrollAnimations two_cards)
   \<and> distinct (map target [\<lparr>target = 0, isIntersecting = True\<rparr>, \<lparr>target = 1, isIntersecting = False\<rparr>])
   \<and> 0 \<notin> set (observed (run (Notify [\<lparr>target = 0, isIntersecting = True\<rparr>, \<lparr>target = 1, isIntersecting = False\<rparr>]
              # [Fire 0, Notify [\<lparr>target = 1, isIntersecting = True\<rparr>], Fire 0])
        (initScrollAnimations two_cards)))
   \<and> style_budget 0 (run (Notify [\<lparr>target = 0, isIntersecting = True\<rparr>, \<lparr>target = 1, isIntersecting = False\<rparr>]
              # [Fire 0, Notify [\<lparr>target = 1, isIntersecting = True\<rparr>], Fire 0])
        (initScrollAnimations two_cards))
       = style_budget 0 (observer_callback
            [\<lparr>target = 0, isIntersecting = True\<rparr>, \<lparr>target = 1, isIntersecting = False\<rparr>]
            (initScrollAnimations two_cards))
   \<and> pending 0 (observer_callback
            [\<lparr>target = 0, isIntersecting = True\<rparr>, \<lparr>target = 1, isIntersecting = False\<rparr>]
            (initScrollAnimations two_cards)) = 1"
proof -
  let ?s = "initScrollAnimations two_cards"
  let ?es = "[\<lparr>target = 0, isIntersecting = True\<rparr>, \<lparr>target = 1, isIntersecting = False\<rparr>]"
  let ?evs = "[Fire 0, Notify [\<lparr>target = 1, isIntersecting = True\<rparr>], Fire 0]"
  have h1: "list_all (\<lambda>p. p < length (doc ?s)) (observed ?s)"
    by (simp add: two_cards_init)
  have h2: "wf_run (Notify ?es # ?evs) ?s"
    by (simp add: two_cards_init observer_callback_def unobserve_def fire_timer_def Let_def)
  have h3: "\<lparr>target = 0, isIntersecting = True\<rparr> \<in> set ?es" by simp
  have h4: "isIntersecting \<lparr>target = 0, isIntersecting = True\<rparr>" by simp
  have p0: "pending 0 ?s = 0" by (simp add: pending_def two_cards_init)
  show ?thesis
    using h1 h2 p0 reveals_only_from_first_callback [OF h1 h2 h3 h4] by simp
qed

text \<open>
  The claim as stated, that an element is revealed at most once, fails for a batch that
  reports the same element several times (entries queued over several frames before the
  callback runs): both intersecting entries schedule a reveal, and the element is written
  by two reveals after its three initial writes.
\<close>

theorem reveal_twice_counterexample:
  "list_all (\<lambda>p. p < length (doc (initScrollAnimations two_cards)))
      (observed (initScrollAnimations two_cards))
   \<and> wf_run [Notify [\<lparr>target = 0, isIntersecting = True\<rparr>, \<lparr>target = 0, isIntersecting = False\<rparr>,
                      \<lparr>target = 0, isIntersecting = True\<rparr>], Fire 0, Fire 0]
        (initScrollAnimations two_cards)
   \<and> timers (observer_callback
        [\<lparr>target = 0, isIntersecting = True\<rparr>, \<lparr>target = 0, isIntersecting = False\<rparr>,
         \<lparr>target = 0, isIntersecting = True\<rparr>] (initScrollAnimations two_cards))
       = [(0, 0), (200, 0)]
   \<and> writes (doc (run [Notify [\<lparr>target = 0, isIntersecting = True\<rparr>, \<lparr>target = 0, isIntersecting = False\<rparr>,
                      \<lparr>target = 0, isIntersecting = True\<rparr>], Fire 0, Fire 0]
        (initScrollAnimations two_cards)) ! 0)
       = [StyleSet ''opacity'' (Lit ''0''), StyleSet ''transform'' (Lit ''translateY(20px)''),
          StyleSet ''transition'' (Lit ''opacity 0.5s ease, transform 0.5s ease''),
          StyleSet ''opacity'' (Lit ''1''), StyleSet ''transform'' (Lit ''translateY(0)''),
          StyleSet ''opacity'' (Lit ''1''), StyleSet ''transform'' (Lit ''translateY(0)'')]"
  by (simp add: initScrollAnimations_def two_cards_def querySelectorAll_def sel_animated_def
        hasClass_def card_def Let_def upt_rec observe_def observer_callback_def unobserve_def
        fire_timer_def initialState_def reveal_def setStyle_def)







text \<open>
  Claim C4 (as amended). Without \<^verbatim>\<open>IntersectionObserver\<close> the function returns before
  it touches anything: the page is unchanged, no element receives a write, and an element
  that was not hidden before is not hidden afterwards.
\<close>

theorem no_observer_no_mutation:
  assumes "\<not> hasIntersectionObserver s"
  shows "initScrollAnimations s = s
       \<and> (\<forall>p. writes (doc (initScrollAnimations s) ! p) = writes (doc s ! p))
       \<and> (\<forall>p. style (doc s ! p) ''opacity'' \<noteq> Some (Lit ''0'')
              \<longrightarrow> style (doc (initScrollAnimations s) ! p) ''opacity'' \<noteq> Some (Lit ''0''))
       \<and> (\<forall>p. style (doc s ! p) ''transform'' \<noteq> Some (Lit ''translateY(20px)'')
              \<longrightarrow> style (doc (initScrollAnimations s) ! p) ''transform'' \<noteq> Some (Lit ''translateY(20px)''))"
  using assms by (simp add: initScrollAnimations_def)

theorem no_observer_no_mutation_witness:
  "\<not> hasIntersectionObserver cards_noIO
   \<and> style (doc cards_noIO ! 0) ''opacity'' \<noteq> Some (Lit ''0'')
   \<and> style (doc cards_noIO ! 0) ''transform'' \<noteq> Some (Lit ''translateY(20px)'')
   \<and> initScrollAnimations cards_noIO = cards_noIO
   \<and> style (doc (initScrollAnimations cards_noIO) ! 0) ''opacity'' \<noteq> Some (Lit ''0'')
   \<and> style (doc (initScrollAnimations cards_noIO) ! 0) ''transform'' \<noteq> Some (Lit ''translateY(20px)'')"
proof -
  have h: "\<not> hasIntersectionObserver cards_noIO" by (simp add: cards_noIO_def)
  have a: "style (doc cards_noIO ! 0) ''opacity'' \<noteq> Some (Lit ''0'')"
    and b: "style (doc cards_noIO ! 0) ''transform'' \<noteq> Some (Lit ''translateY(20px)'')"
    by (simp_all add: cards_noIO_def card_def)
  show ?thesis
    using h a b no_observer_no_mutation [OF h] by simp
qed

text \<open>
  The claim as stated says the elements are revealed. They are not: neither watched
  element of this page receives any write, the first is not set to opacity 1 and the
  second, which the page's markup had at opacity 0, stays there.
\<close>

theorem no_observer_reveal_counterexample:
  "\<not> hasIntersectionObserver cards_noIO
   \<and> querySelectorAll sel_animated (doc cards_noIO) = [0, 1]
   \<and> writes (doc (initScrollAnimations cards_noIO) ! 0) = []
   \<and> style (doc (initScrollAnimations cards_noIO) ! 0) ''opacity'' \<noteq> Some (Lit ''1'')
   \<and> writes (doc (initScrollAnimations cards_noIO) ! 1) = []
   \<and> style (doc (initScrollAnimations cards_noIO) ! 1) ''opacity'' = Some (Lit ''0'')"
  by (simp add: initScrollAnimations_def cards_noIO_def querySelectorAll_def sel_animated_def
        hasClass_def card_def upt_rec)

section \<open>Rounding to the nearest double\<close>

lemma exponent_up_bounds:
  "1 \<le> x \<Longrightarrow> 2 powi (exponent_up x e - e) \<le> x \<and> x < 2 powi (exponent_up x e - e + 1)"
proof (induction x e rule: exponent_up.induct)
  case (1 x e)
  show ?case
  proof (cases "x < 2")
    case True
    then show ?thesis using "1.prems" by (simp add: exponent_up.simps [of x e])
  next
    case False
    then have h: "1 \<le> x / 2" by simp
    define r where "r = exponent_up (x / 2) (e + 1)"
    have r: "exponent_up x e = r" using False by (simp add: exponent_up.simps [of x e] r_def)
    from "1.IH" [OF False h]
    have lo: "2 powi (r - (e + 1)) \<le> x / 2" and hi: "x / 2 < 2 powi (r - (e + 1) + 1)"
      by (simp_all add: r_def)
    have a: "(2::real) powi (r - e) = 2 powi (r - (e + 1)) * 2"
      using power_int_add_1 [of "2::real" "r - (e + 1)"] by (simp add: algebra_simps)
    have b: "(2::real) powi (r - e + 1) = 2 powi (r - (e + 1) + 1) * 2"
      using power_int_add_1 [of "2::real" "r - (e + 1) + 1"] by (simp add: algebra_simps)
    show ?thesis unfolding r a b using lo hi by simp
  qed
qed

lemma exponent_down_bounds:
  "0 < x \<Longrightarrow> x < 1 \<Longrightarrow>
   2 powi (exponent_down x e - e) \<le> x \<and> x < 2 powi (exponent_down x e - e + 1)"
proof (induction x e rule: exponent_down.induct)
  case (1 x e)
  have c: "\<not> (x \<le> 0 \<or> 1 \<le> x)" using "1.prems" by simp
  define r where "r = exponent_down (x * 2) (e - 1)"
  have r: "exponent_down x e = r" using c by (simp add: exponent_down.simps [of x e] r_def)
  have a: "(2::real) powi (r - (e - 1)) = 2 powi (r - e) * 2"
    using power_int_add_1 [of "2::real" "r - e"] by (simp add: algebra_simps)
  have b: "(2::real) powi (r - (e - 1) + 1) = 2 powi (r - e + 1) * 2"
    using power_int_add_1 [of "2::real" "r - e + 1"] by (simp add: algebra_simps)
  show ?case
  proof (cases "x * 2 < 1")
    case True
    have "0 < x * 2" using "1.prems" by simp
    from "1.IH" [OF c this True]
    have "2 powi (r - (e - 1)) \<le> x * 2" and "x * 2 < 2 powi (r - (e - 1) + 1)"
      by (simp_all add: r_def)
    then show ?thesis unfolding r a b by simp
  next
    case False
    then have "exponent_down (x * 2) (e - 1) = e - 1"
      by (simp add: exponent_down.simps [of "x * 2" "e - 1"])
    then have "r = e - 1" by (simp add: r_def)
    then show ?thesis unfolding r using False "1.prems" by simp
  qed
qed

lemma binade_bounds:
  assumes "x \<noteq> 0"
  shows "2 powi binade x \<le> \<bar>x\<bar>" and "\<bar>x\<bar> < 2 powi (binade x + 1)"
proof -
  have "2 powi binade x \<le> \<bar>x\<bar> \<and> \<bar>x\<bar> < 2 powi (binade x + 1)"
  proof (cases "1 \<le> \<bar>x\<bar>")
    case True
    then show ?thesis using exponent_up_bounds [OF True, of 0] by (simp add: binade_def)
  next
    case False
    then have "0 < \<bar>x\<bar>" "\<bar>x\<bar> < 1" using assms by simp_all
    then show ?thesis using exponent_down_bounds [of "\<bar>x\<bar>" 0] False by (simp add: binade_def)
  qed
  then show "2 powi binade x \<le> \<bar>x\<bar>" and "\<bar>x\<bar> < 2 powi (binade x + 1)" by simp_all
qed

lemma powi_less_imp_less:
  assumes "(2::real) powi m < 2 powi n"
  shows "m < n"
proof (rule ccontr)
  assume "\<not> m < n"
  then have "n \<le> m" by simp
  then have "(2::real) powi n \<le> 2 powi m" by (rule power_int_increasing) simp
  then show False using assms by simp
qed

lemma binade_eqI:
  assumes "2 powi k \<le> \<bar>x\<bar>" and "\<bar>x\<bar> < 2 powi (k + 1)"
  shows "binade x = k"
proof -
  have "(0::real) < 2 powi k" by simp
  then have "0 < \<bar>x\<bar>" using assms(1) by linarith
  then have nz: "x \<noteq> 0" by simp
  have "(2::real) powi k < 2 powi (binade x + 1)"
    using assms(1) binade_bounds(2) [OF nz] by linarith
  then have a: "k < binade x + 1" by (rule powi_less_imp_less)
  have "(2::real) powi binade x < 2 powi (k + 1)"
    using assms(2) binade_bounds(1) [OF nz] by linarith
  then have b: "binade x < k + 1" by (rule powi_less_imp_less)
  show ?thesis using a b by simp
qed

lemma binade_minus [simp]: "binade (- x) = binade x"
  by (simp add: binade_def)

lemma ulp_minus [simp]: "ulp (- x) = ulp x"
  by (simp add: ulp_def)

lemma ulp_pos [simp]: "0 < ulp x"
  by (simp add: ulp_def)

lemma binade_mono:
  assumes "0 < x" and "x \<le> y"
  shows "binade x \<le> binade y"
proof -
  have nx: "x \<noteq> 0" and ny: "y \<noteq> 0" using assms by simp_all
  have "2 powi binade x \<le> x" using binade_bounds(1) [OF nx] assms(1) by simp
  moreover have "y < 2 powi (binade y + 1)" using binade_bounds(2) [OF ny] assms by simp
  ultimately have "(2::real) powi binade x < 2 powi (binade y + 1)" using assms(2) by linarith
  then have "binade x < binade y + 1" by (rule powi_less_imp_less)
  then show ?thesis by simp
qed

lemma round_ties_even_of_int [simp]: "round_ties_even (of_int n) = n"
  by (simp add: round_ties_even_def)

lemma round_ties_even_mono:
  assumes "y \<le> z"
  shows "round_ties_even y \<le> round_ties_even z"
proof (cases "\<lfloor>y\<rfloor> = \<lfloor>z\<rfloor>")
  case True
  then show ?thesis using assms by (auto simp: round_ties_even_def Let_def)
next
  case False
  then have "\<lfloor>y\<rfloor> < \<lfloor>z\<rfloor>" using assms floor_mono [of y z] by linarith
  moreover have "round_ties_even y \<le> \<lfloor>y\<rfloor> + 1" by (auto simp: round_ties_even_def Let_def)
  moreover have "\<lfloor>z\<rfloor> \<le> round_ties_even z" by (auto simp: round_ties_even_def Let_def)
  ultimately show ?thesis by linarith
qed

lemma round_ties_even_minus: "round_ties_even (- y) = - round_ties_even y"
proof (cases "y = of_int \<lfloor>y\<rfloor>")
  case True
  then obtain n where "y = of_int n" by blast
  then have "round_ties_even (- y) = round_ties_even (of_int (- n))" by simp
  then show ?thesis using \<open>y = of_int n\<close> by (simp del: of_int_minus)
next
  case False
  have "\<lceil>y\<rceil> = \<lfloor>y\<rfloor> + 1" using False by (simp add: ceiling_altdef)
  then have fl: "\<lfloor>- y\<rfloor> = - \<lfloor>y\<rfloor> - 1" by (simp add: ceiling_def)
  define d where "d = y - of_int \<lfloor>y\<rfloor>"
  have d: "0 < d" "d < 1" using False unfolding d_def by linarith+
  have a: "round_ties_even y =
      (if d < 1 / 2 then \<lfloor>y\<rfloor> else if 1 / 2 < d then \<lfloor>y\<rfloor> + 1
       else if even \<lfloor>y\<rfloor> then \<lfloor>y\<rfloor> else \<lfloor>y\<rfloor> + 1)"
    by (simp add: round_ties_even_def Let_def d_def)
  have "- y - of_int (- \<lfloor>y\<rfloor> - 1) = 1 - d" by (simp add: d_def)
  then have b: "round_ties_even (- y) =
      (if 1 - d < 1 / 2 then - \<lfloor>y\<rfloor> - 1 else if 1 / 2 < 1 - d then - \<lfloor>y\<rfloor>
       else if even (- \<lfloor>y\<rfloor> - 1) then - \<lfloor>y\<rfloor> - 1 else - \<lfloor>y\<rfloor>)"
    unfolding round_ties_even_def Let_def fl by simp
  consider "d < 1 / 2" | "1 / 2 < d" | "d = 1 / 2" by linarith
  then show ?thesis
  proof cases
    case 1
    then show ?thesis unfolding a b by simp
  next
    case 2
    then show ?thesis unfolding a b by simp
  next
    case 3
    then show ?thesis unfolding a b by simp
  qed
qed

lemma fl_minus: "fl (- x) = - fl x"
  by (simp add: fl_def round_ties_even_minus)

lemma fl_zero [simp]: "fl 0 = 0"
  by (simp add: fl_def)

lemma ulp_scale:
  "2 ^ 52 * ulp x = 2 powi binade x"
  "2 ^ 53 * ulp x = 2 powi (binade x + 1)"
proof -
  have "ulp x = 2 powi binade x / 2 powi 52"
    unfolding ulp_def by (rule power_int_diff) simp
  then show a: "2 ^ 52 * ulp x = 2 powi binade x" by simp
  have "(2::real) ^ 53 * ulp x = 2 * (2 ^ 52 * ulp x)" by simp
  also have "\<dots> = 2 * 2 powi binade x" by (simp only: a)
  also have "\<dots> = 2 powi (binade x + 1)" by (rule power_int_add_1' [symmetric]) simp
  finally show "2 ^ 53 * ulp x = 2 powi (binade x + 1)" .
qed

lemma fl_pos_bounds:
  assumes "0 < x"
  shows "2 powi binade x \<le> fl x" and "fl x \<le> 2 powi (binade x + 1)"
proof -
  have nz: "x \<noteq> 0" using assms by simp
  have flx: "fl x = of_int (round_ties_even (x / ulp x)) * ulp x"
    using nz by (simp add: fl_def)
  have lo: "2 powi binade x \<le> x" and hi: "x < 2 powi (binade x + 1)"
    using binade_bounds [OF nz] assms by simp_all
  have "2 ^ 52 * ulp x \<le> x" using lo by (simp only: ulp_scale)
  then have a: "(2::real) ^ 52 \<le> x / ulp x" by (simp only: pos_le_divide_eq [OF ulp_pos])
  have "x \<le> 2 ^ 53 * ulp x" using hi by (simp only: ulp_scale less_imp_le)
  then have b: "x / ulp x \<le> (2::real) ^ 53" by (simp only: pos_divide_le_eq [OF ulp_pos])
  have "round_ties_even (of_int (2 ^ 52)) \<le> round_ties_even (x / ulp x)"
    by (rule round_ties_even_mono) (use a in simp)
  then have a': "(2::int) ^ 52 \<le> round_ties_even (x / ulp x)"
    by (simp only: round_ties_even_of_int)
  have "round_ties_even (x / ulp x) \<le> round_ties_even (of_int (2 ^ 53))"
    by (rule round_ties_even_mono) (use b in simp)
  then have b': "round_ties_even (x / ulp x) \<le> (2::int) ^ 53"
    by (simp only: round_ties_even_of_int)
  have "of_int ((2::int) ^ 52) \<le> (of_int (round_ties_even (x / ulp x)) :: real)"
    using a' by (simp only: of_int_le_iff)
  then have ra: "(2::real) ^ 52 \<le> of_int (round_ties_even (x / ulp x))" by simp
  have "(of_int (round_ties_even (x / ulp x)) :: real) \<le> of_int ((2::int) ^ 53)"
    using b' by (simp only: of_int_le_iff)
  then have rb: "of_int (round_ties_even (x / ulp x)) \<le> (2::real) ^ 53" by simp
  have "2 powi binade x = 2 ^ 52 * ulp x" by (simp only: ulp_scale)
  also have "\<dots> \<le> of_int (round_ties_even (x / ulp x)) * ulp x"
    by (rule mult_right_mono [OF ra less_imp_le [OF ulp_pos]])
  also have "\<dots> = fl x" by (simp only: flx)
  finally show "2 powi binade x \<le> fl x" .
  have "fl x = of_int (round_ties_even (x / ulp x)) * ulp x" by (simp only: flx)
  also have "\<dots> \<le> 2 ^ 53 * ulp x"
    by (rule mult_right_mono [OF rb less_imp_le [OF ulp_pos]])
  also have "\<dots> = 2 powi (binade x + 1)" by (simp only: ulp_scale)
  finally show "fl x \<le> 2 powi (binade x + 1)" .
qed

lemma fl_pos: "0 < x \<Longrightarrow> 0 < fl x"
proof -
  assume "0 < x"
  then have "2 powi binade x \<le> fl x" by (rule fl_pos_bounds(1))
  moreover have "(0::real) < 2 powi binade x" by simp
  ultimately show ?thesis by linarith
qed

lemma fl_mono_pos:
  assumes "0 < x" and "x \<le> y"
  shows "fl x \<le> fl y"
proof (cases "binade x = binade y")
  case True
  then have u: "ulp x = ulp y" by (simp add: ulp_def)
  have "x / ulp y \<le> y / ulp y"
    by (rule divide_right_mono [OF assms(2) less_imp_le [OF ulp_pos]])
  then have "round_ties_even (x / ulp y) \<le> round_ties_even (y / ulp y)"
    by (rule round_ties_even_mono)
  then have "of_int (round_ties_even (x / ulp y)) * ulp y \<le> of_int (round_ties_even (y / ulp y)) * ulp y"
    by (simp add: mult_right_mono)
  then show ?thesis using assms u by (simp add: fl_def)
next
  case False
  then have lt: "binade x < binade y" using binade_mono [OF assms] by simp
  have ypos: "0 < y" using assms by simp
  have "fl x \<le> 2 powi (binade x + 1)" by (rule fl_pos_bounds(2) [OF assms(1)])
  also have "\<dots> \<le> 2 powi binade y"
    by (rule power_int_increasing) (use lt in simp_all)
  also have "\<dots> \<le> fl y" by (rule fl_pos_bounds(1) [OF ypos])
  finally show ?thesis .
qed

lemma fl_mono:
  assumes "x \<le> y"
  shows "fl x \<le> fl y"
proof -
  consider "0 < x" | "x \<le> 0" "0 \<le> y" | "y < 0" using assms by linarith
  then show ?thesis
  proof cases
    case 1
    then show ?thesis using assms by (rule fl_mono_pos)
  next
    case 2
    have "fl x \<le> 0"
    proof (cases "x = 0")
      case True then show ?thesis by simp
    next
      case False
      then have "0 < - x" using 2 by simp
      then have "0 < fl (- x)" by (rule fl_pos)
      then show ?thesis by (simp add: fl_minus)
    qed
    moreover have "0 \<le> fl y"
    proof (cases "y = 0")
      case True then show ?thesis by simp
    next
      case False
      then have "0 < y" using 2 by simp
      then show ?thesis using fl_pos [of y] by simp
    qed
    ultimately show ?thesis by linarith
  next
    case 3
    then have "0 < - y" "- y \<le> - x" using assms by simp_all
    then have "fl (- y) \<le> fl (- x)" by (rule fl_mono_pos)
    then show ?thesis by (simp add: fl_minus)
  qed
qed

lemma fl_eqI:
  assumes "2 powi k \<le> \<bar>x\<bar>" and "\<bar>x\<bar> < 2 powi (k + 1)"
  shows "fl x = of_int (round_ties_even (x / 2 powi (k - 52))) * 2 powi (k - 52)"
proof -
  have "(0::real) < 2 powi k" by simp
  then have "0 < \<bar>x\<bar>" using assms(1) by linarith
  then have "x \<noteq> 0" by simp
  then show ?thesis using binade_eqI [OF assms] by (simp add: fl_def ulp_def)
qed

lemmas fl_eval = round_ties_even_def Let_def

lemma fl_exact:
  "fl (1 / 2) = 1 / 2" "fl 1 = 1" "fl (3 / 4) = 3 / 4" "fl 19 = 19" "fl 21 = 21"
  "fl (17 / 4) = 17 / 4" "fl (23 / 4) = 23 / 4"
proof -
  show "fl (1 / 2) = 1 / 2" by (subst fl_eqI [where k = "- 1"]; simp add: fl_eval)
  show "fl 1 = 1" by (subst fl_eqI [where k = 0]; simp add: fl_eval)
  show "fl (3 / 4) = 3 / 4" by (subst fl_eqI [where k = "- 1"]; simp add: fl_eval)
  show "fl 19 = 19" by (subst fl_eqI [where k = 4]; simp add: fl_eval)
  show "fl 21 = 21" by (subst fl_eqI [where k = 4]; simp add: fl_eval)
  show "fl (17 / 4) = 17 / 4" by (subst fl_eqI [where k = 2]; simp add: fl_eval)
  show "fl (23 / 4) = 23 / 4" by (subst fl_eqI [where k = 2]; simp add: fl_eval)
qed

lemma fl_consts:
  "fl (4 / 5) = 3602879701896397 / 2 ^ 52"
  "fl (2 / 5) = 3602879701896397 / 2 ^ 53"
  "fl (3602879701896397 / 2 ^ 53) = 3602879701896397 / 2 ^ 53"
  "fl (3 / 5) = 5404319552844595 / 2 ^ 53"
proof -
  show "fl (4 / 5) = 3602879701896397 / 2 ^ 52"
    by (subst fl_eqI [where k = "- 1"]; simp add: fl_eval)
  show "fl (2 / 5) = 3602879701896397 / 2 ^ 53"
    by (subst fl_eqI [where k = "- 2"]; simp add: fl_eval)
  show "fl (3602879701896397 / 2 ^ 53) = 3602879701896397 / 2 ^ 53"
    by (subst fl_eqI [where k = "- 2"]; simp add: fl_eval)
  show "fl (3 / 5) = 5404319552844595 / 2 ^ 53"
    by (subst fl_eqI [where k = "- 1"]; simp add: fl_eval)
qed

lemma js_sub_half:
  assumes "0 \<le> r" and "r < 1"
  shows "- (1 / 2) \<le> js_sub r (1 / 2)" and "js_sub r (1 / 2) \<le> 1 / 2"
proof -
  have "fl (- (1 / 2)) \<le> fl (r - 1 / 2)" by (rule fl_mono) (use assms in simp)
  then show "- (1 / 2) \<le> js_sub r (1 / 2)"
    by (simp only: js_sub_def fl_minus fl_exact)
  have "fl (r - 1 / 2) \<le> fl (1 / 2)" by (rule fl_mono) (use assms in simp)
  then show "js_sub r (1 / 2) \<le> 1 / 2"
    by (simp only: js_sub_def fl_exact)
qed

lemma js_mul_half:
  assumes "- (1 / 2) \<le> a" and "a \<le> 1 / 2" and "0 \<le> c"
  shows "- fl (c / 2) \<le> js_mul a c" and "js_mul a c \<le> fl (c / 2)"
proof -
  have "a * c \<le> (1 / 2) * c" by (rule mult_right_mono [OF assms(2,3)])
  then have "a * c \<le> c / 2" by simp
  then show "js_mul a c \<le> fl (c / 2)" unfolding js_mul_def by (rule fl_mono)
  have "(- (1 / 2)) * c \<le> a * c" by (rule mult_right_mono [OF assms(1,3)])
  then have "- (c / 2) \<le> a * c" by simp
  then have "fl (- (c / 2)) \<le> fl (a * c)" by (rule fl_mono)
  then show "- fl (c / 2) \<le> js_mul a c" by (simp only: js_mul_def fl_minus)
qed

lemma js_add_between:
  assumes "- h \<le> x" and "x \<le> h"
  shows "js_sub b h \<le> js_add b x" and "js_add b x \<le> js_add b h"
proof -
  have "b - h \<le> b + x" using assms(1) by simp
  then show "js_sub b h \<le> js_add b x" unfolding js_sub_def js_add_def by (rule fl_mono)
  have "b + x \<le> b + h" using assms(2) by simp
  then show "js_add b x \<le> js_add b h" unfolding js_add_def by (rule fl_mono)
qed

lemma primary_delay_bounds:
  assumes "0 \<le> r" and "r < 1"
  shows "js_sub (js_mul (real i) (- 1.5)) (fl 0.4) \<le> primary_delay i r"
    and "primary_delay i r \<le> js_add (js_mul (real i) (- 1.5)) (fl 0.4)"
proof -
  have a: "- (1 / 2) \<le> js_sub r 0.5" "js_sub r 0.5 \<le> 1 / 2"
    using js_sub_half [OF assms] by simp_all
  have c: "0 \<le> fl 0.8" using fl_pos [of "0.8"] by simp
  have e: "fl 0.8 / 2 = 3602879701896397 / 2 ^ 53" by (simp add: fl_consts(1))
  have h2: "fl 0.4 = 3602879701896397 / 2 ^ 53" by (simp add: fl_consts(2))
  have h: "fl (fl 0.8 / 2) = fl 0.4" unfolding e h2 by (rule fl_consts(3))
  have o: "- fl 0.4 \<le> js_mul (js_sub r 0.5) (fl 0.8)" "js_mul (js_sub r 0.5) (fl 0.8) \<le> fl 0.4"
    using js_mul_half [OF a c] unfolding h by simp_all
  show "js_sub (js_mul (real i) (- 1.5)) (fl 0.4) \<le> primary_delay i r"
    unfolding primary_delay_def by (rule js_add_between(1) [OF o])
  show "primary_delay i r \<le> js_add (js_mul (real i) (- 1.5)) (fl 0.4)"
    unfolding primary_delay_def by (rule js_add_between(2) [OF o])
qed

lemma primary_duration_bounds:
  assumes "0 \<le> r" and "r < 1"
  shows "19 \<le> primary_duration r" and "primary_duration r \<le> 21"
proof -
  have a: "- (1 / 2) \<le> js_sub r 0.5" "js_sub r 0.5 \<le> 1 / 2"
    using js_sub_half [OF assms] by simp_all
  have o: "- 1 \<le> js_mul (js_sub r 0.5) 2" "js_mul (js_sub r 0.5) 2 \<le> 1"
    using js_mul_half [OF a, of 2] by (simp_all add: fl_exact)
  have "js_sub 20 1 \<le> primary_duration r"
    unfolding primary_duration_def by (rule js_add_between(1) [OF o])
  then show "19 \<le> primary_duration r" by (simp add: js_sub_def fl_exact)
  have "primary_duration r \<le> js_add 20 1"
    unfolding primary_duration_def by (rule js_add_between(2) [OF o])
  then show "primary_duration r \<le> 21" by (simp add: js_add_def fl_exact)
qed

lemma interstitial_offset_bounds:
  assumes "0 \<le> r" and "r < 1"
  shows "- 0.75 \<le> js_mul (js_sub r 0.5) 1.5" and "js_mul (js_sub r 0.5) 1.5 \<le> 0.75"
proof -
  have a: "- (1 / 2) \<le> js_sub r 0.5" "js_sub r 0.5 \<le> 1 / 2"
    using js_sub_half [OF assms] by simp_all
  show "- 0.75 \<le> js_mul (js_sub r 0.5) 1.5" and "js_mul (js_sub r 0.5) 1.5 \<le> 0.75"
    using js_mul_half [OF a, of "1.5"] by (simp_all add: fl_exact)
qed

lemma interstitial_delay_bounds:
  assumes "0 \<le> r" and "r < 1"
  shows "js_sub (js_mul (real j) (- fl 0.6)) 0.75 \<le> interstitial_delay j r"
    and "interstitial_delay j r \<le> js_add (js_mul (real j) (- fl 0.6)) 0.75"
proof -
  note o = interstitial_offset_bounds [OF assms]
  show "js_sub (js_mul (real j) (- fl 0.6)) 0.75 \<le> interstitial_delay j r"
    unfolding interstitial_delay_def by (rule js_add_between(1) [OF o])
  show "interstitial_delay j r \<le> js_add (js_mul (real j) (- fl 0.6)) 0.75"
    unfolding interstitial_delay_def by (rule js_add_between(2) [OF o])
qed

lemma interstitial_duration_bounds:
  assumes "0 \<le> r" and "r < 1"
  shows "4.25 \<le> interstitial_duration r" and "interstitial_duration r \<le> 5.75"
proof -
  note o = interstitial_offset_bounds [OF assms]
  have "js_sub 5 0.75 \<le> interstitial_duration r"
    unfolding interstitial_duration_def by (rule js_add_between(1) [OF o])
  then show "4.25 \<le> interstitial_duration r" by (simp add: js_sub_def fl_exact)
  have "interstitial_duration r \<le> js_add 5 0.75"
    unfolding interstitial_duration_def by (rule js_add_between(2) [OF o])
  then show "interstitial_duration r \<le> 5.75" by (simp add: js_add_def fl_exact)
qed

lemma primary_delay_within:
  assumes "0 \<le> r" and "r < 1"
  shows "primary_delay_lo i \<le> primary_delay i r" and "primary_delay i r \<le> primary_delay_hi i"
  using primary_delay_bounds [OF assms, of i]
  by (simp_all only: primary_delay_lo_def primary_delay_hi_def)

lemma interstitial_delay_within:
  assumes "0 \<le> r" and "r < 1"
  shows "interstitial_delay_lo j \<le> interstitial_delay j r"
    and "interstitial_delay j r \<le> interstitial_delay_hi j"
  using interstitial_delay_bounds [OF assms, of j]
  by (simp_all only: interstitial_delay_lo_def interstitial_delay_hi_def)

lemma interstitial_delay_index_9:
  "interstitial_delay 9 (top_draws n) = - (5235434566818201 / 2 ^ 50)"
proof -
  have b: "js_mul (real 9) (- fl 0.6) = - (6079859496950169 / 2 ^ 50)"
    unfolding js_mul_def
    by (simp add: fl_consts fl_minus) (subst fl_eqI [where k = 2]; simp add: fl_eval)
  have s: "js_sub (4503599627370495 / 2 ^ 52) 0.5 = 2251799813685247 / 2 ^ 52"
    unfolding js_sub_def
    by (subst fl_eqI [where k = "- 2"]; simp add: fl_eval)
  have m: "js_mul (2251799813685247 / 2 ^ 52) 1.5 = 6755399441055741 / 2 ^ 53"
    unfolding js_mul_def
    by (subst fl_eqI [where k = "- 1"]; simp add: fl_eval)
  have "js_add (- (6079859496950169 / 2 ^ 50)) (6755399441055741 / 2 ^ 53)
          = - (5235434566818201 / 2 ^ 50)"
    unfolding js_add_def
    by (subst fl_eqI [where k = 2]; simp add: fl_eval)
  then show ?thesis
    unfolding interstitial_delay_def top_draws_def b s m .
qed

section \<open>The decorative timing assigner\<close>

lemma later_simps: "later 0 g = g" "later m (later k g) = later (m + k) g"
  by (simp_all add: later_def add.assoc)

lemma unit_draws_later: "unit_draws g \<Longrightarrow> unit_draws (later m g)"
  by (simp add: unit_draws_def later_def)

lemma classList_add_simps:
  "style (classList_add c e) = style e"
  "writes (classList_add c e) = writes e @ [ClassAdd c]"
  "getBBox (classList_add c e) = getBBox e"
  "classList (classList_add c e) = (if c \<in> set (classList e) then classList e else classList e @ [c])"
  by (simp_all add: classList_add_def)

lemma foamCell_cb_Inl:
  "getBBox cell = Inl ex \<Longrightarrow>
   foamCell_cb cell k g = Inr (setStyle ''transformOrigin'' (Lit ''center center'') cell, g)"
  by (simp add: foamCell_cb_def foamCell_try_def)

lemma foamCell_cb_Inr:
  "getBBox cell = Inr bbox \<Longrightarrow>
   foamCell_cb cell k g =
     Inr (setStyle ''animationDuration'' (Seconds (primary_duration (g 1)))
           (setStyle ''animationDelay'' (Seconds (primary_delay k (g 0)))
             ((if k mod 2 = 1 then classList_add ''phase-contract'' else (\<lambda>c. c))
               (setStyle ''transformOrigin''
                  (bbox_center bbox)
                  cell))),
          later 2 g)"
  by (simp add: foamCell_cb_def foamCell_try_def Math_random_def Let_def later_def
        bbox_center_def primary_delay_def primary_duration_def)

lemma interstitial_cb_Inl:
  "getBBox cell = Inl ex \<Longrightarrow>
   interstitial_cb cell k g = Inr (setStyle ''transformOrigin'' (Lit ''center center'') cell, g)"
  by (simp add: interstitial_cb_def interstitial_try_def)

lemma interstitial_cb_Inr:
  "getBBox cell = Inr bbox \<Longrightarrow>
   interstitial_cb cell k g =
     Inr (setStyle ''animationDuration'' (Seconds (interstitial_duration (g 1)))
           (setStyle ''animationDelay'' (Seconds (interstitial_delay k (g 0)))
             (setStyle ''transformOrigin''
                (bbox_center bbox)
                cell)),
          later 2 g)"
  by (simp add: interstitial_cb_def interstitial_try_def Math_random_def Let_def later_def
        bbox_center_def interstitial_delay_def interstitial_duration_def)

lemma foamCell_cb_total: "\<exists>c m. foamCell_cb e k g = Inr (c, later m g)"
proof (cases "getBBox e")
  case (Inl ex)
  then show ?thesis using foamCell_cb_Inl [OF Inl, of k g] later_simps(1) [of g] by metis
next
  case (Inr bbox)
  then show ?thesis using foamCell_cb_Inr [OF Inr, of k g] by metis
qed

lemma interstitial_cb_total: "\<exists>c m. interstitial_cb e k g = Inr (c, later m g)"
proof (cases "getBBox e")
  case (Inl ex)
  then show ?thesis using interstitial_cb_Inl [OF Inl, of k g] later_simps(1) [of g] by metis
next
  case (Inr bbox)
  then show ?thesis using interstitial_cb_Inr [OF Inr, of k g] by metis
qed

lemma forEach_cells_spec:
  assumes total: "\<And>e k g. \<exists>c m. cb e k g = Inr (c, later m g)"
  shows "distinct ps \<Longrightarrow> \<forall>p\<in>set ps. p < length d \<Longrightarrow>
     \<exists>d' m. forEach_cells cb ps k d g = Inr (d', later m g)
       \<and> length d' = length d
       \<and> (\<forall>q. q \<notin> set ps \<longrightarrow> d' ! q = d ! q)
       \<and> (\<forall>j<length ps. \<exists>mj g'. cb (d ! (ps ! j)) (k + j) (later mj g) = Inr (d' ! (ps ! j), g'))"
proof (induction ps arbitrary: k d g)
  case Nil
  show ?case using later_simps(1) [of g] by (intro exI [of _ d] exI [of _ 0]) simp
next
  case (Cons p ps)
  obtain c m where c: "cb (d ! p) k g = Inr (c, later m g)" using total by blast
  let ?d1 = "d[p := c]"
  have dps: "distinct ps" and pn: "p \<notin> set ps" and pl: "p < length d"
    using Cons.prems by auto
  have rng: "\<forall>q\<in>set ps. q < length ?d1" using Cons.prems(2) by simp
  from Cons.IH [OF dps rng, of "Suc k" "later m g"]
  obtain d' m' where r: "forEach_cells cb ps (Suc k) ?d1 (later m g) = Inr (d', later m' (later m g))"
    and len: "length d' = length ?d1"
    and same: "\<forall>q. q \<notin> set ps \<longrightarrow> d' ! q = ?d1 ! q"
    and each: "\<forall>j<length ps. \<exists>mj g'. cb (?d1 ! (ps ! j)) (Suc k + j) (later mj (later m g))
                   = Inr (d' ! (ps ! j), g')"
    by blast
  have res: "forEach_cells cb (p # ps) k d g = Inr (d', later (m' + m) g)"
    using c r by (simp add: later_simps)
  have same': "\<forall>q. q \<notin> set (p # ps) \<longrightarrow> d' ! q = d ! q"
    using same by auto
  have each': "\<exists>mj g'. cb (d ! ((p # ps) ! j)) (k + j) (later mj g) = Inr (d' ! ((p # ps) ! j), g')"
    if j: "j < length (p # ps)" for j
  proof (cases j)
    case 0
    have "d' ! p = c" using same pn pl by simp
    then show ?thesis using c 0 later_simps(1) [of g] by (intro exI [of _ 0]) auto
  next
    case (Suc i)
    then have i: "i < length ps" using j by simp
    then obtain mj g' where
      e: "cb (?d1 ! (ps ! i)) (Suc k + i) (later mj (later m g)) = Inr (d' ! (ps ! i), g')"
      using each by blast
    have "ps ! i \<noteq> p" using pn i by (metis nth_mem)
    then have "?d1 ! (ps ! i) = d ! (ps ! i)" by simp
    then show ?thesis using e Suc by (auto simp: later_simps)
  qed
  show ?case using res len same' each' by (intro exI [of _ d'] exI [of _ "m' + m"]) simp
qed

lemma run_frame_cb_spec:
  assumes dfc: "distinct fc" and dic: "distinct ic" and disj: "set fc \<inter> set ic = {}"
    and rng: "\<forall>p\<in>set fc \<union> set ic. p < length d"
  shows "\<exists>d' m. run_frame_cb (FoamFrame fc ic) d g = Inr (d', later m g)
       \<and> length d' = length d
       \<and> (\<forall>q. q \<notin> set fc \<union> set ic \<longrightarrow> d' ! q = d ! q)
       \<and> (\<forall>j<length fc. \<exists>mj g'. foamCell_cb (d ! (fc ! j)) j (later mj g) = Inr (d' ! (fc ! j), g'))
       \<and> (\<forall>j<length ic. \<exists>mj g'. interstitial_cb (d ! (ic ! j)) j (later mj g) = Inr (d' ! (ic ! j), g'))"
proof -
  have r1: "\<forall>p\<in>set fc. p < length d" using rng by simp
  from forEach_cells_spec [of foamCell_cb fc d 0 g, OF foamCell_cb_total dfc r1]
  obtain d1 m1 where p1: "forEach_cells foamCell_cb fc 0 d g = Inr (d1, later m1 g)"
    and len1: "length d1 = length d"
    and same1: "\<forall>q. q \<notin> set fc \<longrightarrow> d1 ! q = d ! q"
    and each1: "\<forall>j<length fc. \<exists>mj g'. foamCell_cb (d ! (fc ! j)) (0 + j) (later mj g) = Inr (d1 ! (fc ! j), g')"
    by blast
  have r2: "\<forall>p\<in>set ic. p < length d1" using rng len1 by simp
  from forEach_cells_spec [of interstitial_cb ic d1 0 "later m1 g", OF interstitial_cb_total dic r2]
  obtain d2 m2 where p2: "forEach_cells interstitial_cb ic 0 d1 (later m1 g) = Inr (d2, later m2 (later m1 g))"
    and len2: "length d2 = length d1"
    and same2: "\<forall>q. q \<notin> set ic \<longrightarrow> d2 ! q = d1 ! q"
    and each2: "\<forall>j<length ic. \<exists>mj g'. interstitial_cb (d1 ! (ic ! j)) (0 + j) (later mj (later m1 g))
                    = Inr (d2 ! (ic ! j), g')"
    by blast
  have res: "run_frame_cb (FoamFrame fc ic) d g = Inr (d2, later (m2 + m1) g)"
    using p1 p2 by (simp add: later_simps)
  have same: "\<forall>q. q \<notin> set fc \<union> set ic \<longrightarrow> d2 ! q = d ! q"
    using same1 same2 by simp
  have e1: "\<exists>mj g'. foamCell_cb (d ! (fc ! j)) j (later mj g) = Inr (d2 ! (fc ! j), g')"
    if "j < length fc" for j
  proof -
    have "fc ! j \<notin> set ic" using that disj by (metis disjoint_iff nth_mem)
    then have "d2 ! (fc ! j) = d1 ! (fc ! j)" using same2 by simp
    then show ?thesis using each1 that by simp
  qed
  have e2: "\<exists>mj g'. interstitial_cb (d ! (ic ! j)) j (later mj g) = Inr (d2 ! (ic ! j), g')"
    if j: "j < length ic" for j
  proof -
    have "ic ! j \<notin> set fc" using j disj by (metis disjoint_iff nth_mem)
    then have "d1 ! (ic ! j) = d ! (ic ! j)" using same1 by simp
    moreover obtain mj g' where
      "interstitial_cb (d1 ! (ic ! j)) j (later mj (later m1 g)) = Inr (d2 ! (ic ! j), g')"
      using each2 j by force
    ultimately show ?thesis by (auto simp: later_simps)
  qed
  show ?thesis
    using res len1 len2 same e1 e2 by (intro exI [of _ d2] exI [of _ "m2 + m1"]) simp
qed

lemma foam_selectors_disjoint:
  "set (querySelectorAll sel_foamCell d) \<inter> set (querySelectorAll sel_interstitial d) = {}"
  by (auto simp: querySelectorAll_set sel_foamCell_def sel_interstitial_def)

lemma initFoamAnimation_runs:
  assumes "querySelectorAll sel_foamCell (doc s) \<noteq> []"
    and "querySelector sel_foamCells (doc s) \<noteq> None"
  shows "initFoamAnimation s =
     s\<lparr>frames := frames s @ [FoamFrame (querySelectorAll sel_foamCell (doc s))
                                       (querySelectorAll sel_interstitial (doc s))]\<rparr>"
  using assms by (auto simp: initFoamAnimation_def Let_def split: option.splits)

lemma foam_assigner_runs:
  assumes fr: "frames s = []"
    and ne: "querySelectorAll sel_foamCell (doc s) \<noteq> []"
    and svg: "querySelector sel_foamCells (doc s) \<noteq> None"
  shows "\<exists>s' m. animation_frame (initFoamAnimation s) g = Inr (s', later m g)
       \<and> length (doc s') = length (doc s)
       \<and> (\<forall>q. q \<notin> set (querySelectorAll sel_foamCell (doc s))
                  \<union> set (querySelectorAll sel_interstitial (doc s)) \<longrightarrow> doc s' ! q = doc s ! q)
       \<and> (\<forall>j<length (querySelectorAll sel_foamCell (doc s)). \<exists>mj g'.
             foamCell_cb (doc s ! (querySelectorAll sel_foamCell (doc s) ! j)) j (later mj g)
               = Inr (doc s' ! (querySelectorAll sel_foamCell (doc s) ! j), g'))
       \<and> (\<forall>j<length (querySelectorAll sel_interstitial (doc s)). \<exists>mj g'.
             interstitial_cb (doc s ! (querySelectorAll sel_interstitial (doc s) ! j)) j (later mj g)
               = Inr (doc s' ! (querySelectorAll sel_interstitial (doc s) ! j), g'))"
proof -
  let ?fc = "querySelectorAll sel_foamCell (doc s)"
  let ?ic = "querySelectorAll sel_interstitial (doc s)"
  have rng: "\<forall>p\<in>set ?fc \<union> set ?ic. p < length (doc s)"
    by (auto simp: querySelectorAll_set)
  from run_frame_cb_spec [OF querySelectorAll_distinct querySelectorAll_distinct
      foam_selectors_disjoint rng, of g]
  obtain d' m where r: "run_frame_cb (FoamFrame ?fc ?ic) (doc s) g = Inr (d', later m g)"
    and rest: "length d' = length (doc s)"
      "\<forall>q. q \<notin> set ?fc \<union> set ?ic \<longrightarrow> d' ! q = doc s ! q"
      "\<forall>j<length ?fc. \<exists>mj g'. foamCell_cb (doc s ! (?fc ! j)) j (later mj g) = Inr (d' ! (?fc ! j), g')"
      "\<forall>j<length ?ic. \<exists>mj g'. interstitial_cb (doc s ! (?ic ! j)) j (later mj g) = Inr (d' ! (?ic ! j), g')"
    by blast
  have "animation_frame (initFoamAnimation s) g
          = Inr (s\<lparr>doc := d', frames := []\<rparr>, later m g)"
    using r fr by (simp add: initFoamAnimation_runs [OF ne svg] animation_frame_def)
  then show ?thesis using rest
    by (intro exI [of _ "s\<lparr>doc := d', frames := []\<rparr>"] exI [of _ m]) simp
qed

lemma initFoamAnimation_skips:
  assumes "querySelectorAll sel_foamCell (doc s) = [] \<or> querySelector sel_foamCells (doc s) = None"
  shows "initFoamAnimation s = s"
  using assms by (auto simp: initFoamAnimation_def Let_def split: option.splits)

lemma animation_frame_idle: "frames s = [] \<Longrightarrow> animation_frame s g = Inr (s, g)"
  by (simp add: animation_frame_def)

lemma new_writes_same: "new_writes e e = []"
  by (simp add: new_writes_def)

lemma foamCell_cb_new_writes:
  assumes "foamCell_cb cell k g = Inr (c, g')"
  shows "new_writes cell c =
     (case getBBox cell of
        Inl ex \<Rightarrow> [StyleSet ''transformOrigin'' (Lit ''center center'')]
      | Inr bbox \<Rightarrow>
          StyleSet ''transformOrigin''
             (bbox_center bbox)
          # (if k mod 2 = 1 then [ClassAdd ''phase-contract''] else [])
          @ [StyleSet ''animationDelay'' (Seconds (primary_delay k (g 0))),
             StyleSet ''animationDuration'' (Seconds (primary_duration (g 1)))])"
proof (cases "getBBox cell")
  case (Inl ex)
  then show ?thesis using assms foamCell_cb_Inl [OF Inl, of k g]
    by (auto simp: new_writes_def setStyle_simps)
next
  case (Inr bbox)
  then show ?thesis using assms foamCell_cb_Inr [OF Inr, of k g]
    by (auto simp: new_writes_def setStyle_simps classList_add_simps)
qed

lemma interstitial_cb_new_writes:
  assumes "interstitial_cb cell k g = Inr (c, g')"
  shows "new_writes cell c =
     (case getBBox cell of
        Inl ex \<Rightarrow> [StyleSet ''transformOrigin'' (Lit ''center center'')]
      | Inr bbox \<Rightarrow>
          [StyleSet ''transformOrigin''
             (bbox_center bbox),
           StyleSet ''animationDelay'' (Seconds (interstitial_delay k (g 0))),
           StyleSet ''animationDuration'' (Seconds (interstitial_duration (g 1)))])"
proof (cases "getBBox cell")
  case (Inl ex)
  then show ?thesis using assms interstitial_cb_Inl [OF Inl, of k g]
    by (auto simp: new_writes_def setStyle_simps)
next
  case (Inr bbox)
  then show ?thesis using assms interstitial_cb_Inr [OF Inr, of k g]
    by (auto simp: new_writes_def setStyle_simps)
qed

lemma foamCell_cb_style:
  assumes "foamCell_cb cell k g = Inr (c, g')"
  shows "case getBBox cell of
        Inl ex \<Rightarrow> style c = (style cell)(''transformOrigin'' \<mapsto> Lit ''center center'')
                  \<and> classList c = classList cell
      | Inr bbox \<Rightarrow>
          style c ''transformOrigin''
            = Some (bbox_center bbox)
          \<and> style c ''animationDelay'' = Some (Seconds (primary_delay k (g 0)))
          \<and> style c ''animationDuration'' = Some (Seconds (primary_duration (g 1)))
          \<and> (k mod 2 = 1 \<longrightarrow> ''phase-contract'' \<in> set (classList c))
          \<and> (k mod 2 \<noteq> 1 \<longrightarrow> classList c = classList cell)"
proof (cases "getBBox cell")
  case (Inl ex)
  then show ?thesis using assms foamCell_cb_Inl [OF Inl, of k g]
    by (auto simp: setStyle_simps)
next
  case (Inr bbox)
  then show ?thesis using assms foamCell_cb_Inr [OF Inr, of k g]
    by (auto simp: setStyle_simps classList_add_simps)
qed

lemma interstitial_cb_style:
  assumes "interstitial_cb cell k g = Inr (c, g')"
  shows "case getBBox cell of
        Inl ex \<Rightarrow> style c = (style cell)(''transformOrigin'' \<mapsto> Lit ''center center'')
                  \<and> classList c = classList cell
      | Inr bbox \<Rightarrow>
          style c ''transformOrigin''
            = Some (bbox_center bbox)
          \<and> style c ''animationDelay'' = Some (Seconds (interstitial_delay k (g 0)))
          \<and> style c ''animationDuration'' = Some (Seconds (interstitial_duration (g 1)))
          \<and> classList c = classList cell"
proof (cases "getBBox cell")
  case (Inl ex)
  then show ?thesis using assms interstitial_cb_Inl [OF Inl, of k g]
    by (auto simp: setStyle_simps)
next
  case (Inr bbox)
  then show ?thesis using assms interstitial_cb_Inr [OF Inr, of k g]
    by (auto simp: setStyle_simps)
qed

lemma foam_after_runs:
  assumes fr: "frames s = []"
    and ne: "querySelectorAll sel_foamCell (doc s) \<noteq> []"
    and svg: "querySelector sel_foamCells (doc s) \<noteq> None"
  shows "\<not> isl (animation_frame (initFoamAnimation s) g)"
    and "j < length (querySelectorAll sel_foamCell (doc s)) \<Longrightarrow> \<exists>mj g'.
             foamCell_cb (doc s ! (querySelectorAll sel_foamCell (doc s) ! j)) j (later mj g)
               = Inr (doc (foam_after s g) ! (querySelectorAll sel_foamCell (doc s) ! j), g')"
    and "j < length (querySelectorAll sel_interstitial (doc s)) \<Longrightarrow> \<exists>mj g'.
             interstitial_cb (doc s ! (querySelectorAll sel_interstitial (doc s) ! j)) j (later mj g)
               = Inr (doc (foam_after s g) ! (querySelectorAll sel_interstitial (doc s) ! j), g')"
    and "q \<notin> set (querySelectorAll sel_foamCell (doc s))
                  \<union> set (querySelectorAll sel_interstitial (doc s)) \<Longrightarrow>
         doc (foam_after s g) ! q = doc s ! q"
proof -
  from foam_assigner_runs [OF fr ne svg, of g]
  obtain s' m where r: "animation_frame (initFoamAnimation s) g = Inr (s', later m g)"
    and rest: "\<forall>q. q \<notin> set (querySelectorAll sel_foamCell (doc s))
                  \<union> set (querySelectorAll sel_interstitial (doc s)) \<longrightarrow> doc s' ! q = doc s ! q"
       "\<forall>j<length (querySelectorAll sel_foamCell (doc s)). \<exists>mj g'.
             foamCell_cb (doc s ! (querySelectorAll sel_foamCell (doc s) ! j)) j (later mj g)
               = Inr (doc s' ! (querySelectorAll sel_foamCell (doc s) ! j), g')"
       "\<forall>j<length (querySelectorAll sel_interstitial (doc s)). \<exists>mj g'.
             interstitial_cb (doc s ! (querySelectorAll sel_interstitial (doc s) ! j)) j (later mj g)
               = Inr (doc s' ! (querySelectorAll sel_interstitial (doc s) ! j), g')"
    by blast
  have fa: "foam_after s g = s'" using r by (simp add: foam_after_def)
  show "\<not> isl (animation_frame (initFoamAnimation s) g)" using r by simp
  show "j < length (querySelectorAll sel_foamCell (doc s)) \<Longrightarrow> \<exists>mj g'.
             foamCell_cb (doc s ! (querySelectorAll sel_foamCell (doc s) ! j)) j (later mj g)
               = Inr (doc (foam_after s g) ! (querySelectorAll sel_foamCell (doc s) ! j), g')"
    using rest(2) fa by simp
  show "j < length (querySelectorAll sel_interstitial (doc s)) \<Longrightarrow> \<exists>mj g'.
             interstitial_cb (doc s ! (querySelectorAll sel_interstitial (doc s) ! j)) j (later mj g)
               = Inr (doc (foam_after s g) ! (querySelectorAll sel_interstitial (doc s) ! j), g')"
    using rest(3) fa by simp
  show "q \<notin> set (querySelectorAll sel_foamCell (doc s))
                  \<union> set (querySelectorAll sel_interstitial (doc s)) \<Longrightarrow>
         doc (foam_after s g) ! q = doc s ! q"
    using rest(1) fa by simp
qed

lemma foam_after_skips:
  assumes "frames s = []"
    and "querySelectorAll sel_foamCell (doc s) = [] \<or> querySelector sel_foamCells (doc s) = None"
  shows "animation_frame (initFoamAnimation s) g = Inr (s, g)" and "foam_after s g = s"
  using assms by (simp_all add: foam_after_def initFoamAnimation_skips animation_frame_idle)

lemma assigned_timing_writes:
  "assigned ''animationDelay''
     (StyleSet ''transformOrigin'' v0 # cs @ [StyleSet ''animationDelay'' v1, StyleSet ''animationDuration'' v2])
     = assigned ''animationDelay'' cs @ [v1]"
  "assigned ''animationDuration''
     (StyleSet ''transformOrigin'' v0 # cs @ [StyleSet ''animationDelay'' v1, StyleSet ''animationDuration'' v2])
     = assigned ''animationDuration'' cs @ [v2]"
  "assigned ''transformOrigin''
     (StyleSet ''transformOrigin'' v0 # cs @ [StyleSet ''animationDelay'' v1, StyleSet ''animationDuration'' v2])
     = v0 # assigned ''transformOrigin'' cs"
  "classes_added
     (StyleSet ''transformOrigin'' v0 # cs @ [StyleSet ''animationDelay'' v1, StyleSet ''animationDuration'' v2])
     = classes_added cs"
  by (induction cs rule: classes_added.induct) simp_all

lemma foamCell_cb_bounds:
  assumes ud: "unit_draws g" and cb: "foamCell_cb cell k g = Inr (c, g')"
  shows "list_all (seconds_within (primary_delay_lo k) (primary_delay_hi k))
           (assigned ''animationDelay'' (new_writes cell c))
       \<and> list_all (seconds_within 19 21) (assigned ''animationDuration'' (new_writes cell c))
       \<and> (\<not> getBBox_throws cell \<longrightarrow>
           (\<exists>v. style c ''animationDelay'' = Some v
                \<and> seconds_within (primary_delay_lo k) (primary_delay_hi k) v)
         \<and> (\<exists>v. style c ''animationDuration'' = Some v \<and> seconds_within 19 21 v))"
proof (cases "getBBox cell")
  case (Inl ex)
  then show ?thesis
    using foamCell_cb_new_writes [OF cb] by (simp add: getBBox_throws_def)
next
  case (Inr bbox)
  have r0: "0 \<le> g 0" "g 0 < 1" and r1: "0 \<le> g 1" "g 1 < 1"
    using ud by (simp_all add: unit_draws_def)
  define v1 where "v1 = Seconds (primary_delay k (g 0))"
  define v2 where "v2 = Seconds (primary_duration (g 1))"
  have b1: "seconds_within (primary_delay_lo k) (primary_delay_hi k) v1"
    unfolding v1_def seconds_within_def using primary_delay_within [OF r0, of k] by simp
  have b2: "seconds_within 19 21 v2"
    unfolding v2_def seconds_within_def using primary_duration_bounds [OF r1] by simp
  have nw: "new_writes cell c =
      StyleSet ''transformOrigin'' (bbox_center bbox)
      # (if k mod 2 = 1 then [ClassAdd ''phase-contract''] else [])
      @ [StyleSet ''animationDelay'' v1, StyleSet ''animationDuration'' v2]"
    using foamCell_cb_new_writes [OF cb] Inr unfolding v1_def v2_def by simp
  have st: "style c ''animationDelay'' = Some v1" "style c ''animationDuration'' = Some v2"
    using foamCell_cb_style [OF cb] Inr unfolding v1_def v2_def by simp_all
  have a: "assigned ''animationDelay'' (new_writes cell c) = [v1]"
    "assigned ''animationDuration'' (new_writes cell c) = [v2]"
    unfolding nw assigned_timing_writes by simp_all
  show ?thesis unfolding a st using b1 b2 by simp
qed

lemma interstitial_cb_bounds:
  assumes ud: "unit_draws g" and cb: "interstitial_cb cell k g = Inr (c, g')"
  shows "list_all (seconds_within (interstitial_delay_lo k) (interstitial_delay_hi k))
           (assigned ''animationDelay'' (new_writes cell c))
       \<and> list_all (seconds_within 4.25 5.75) (assigned ''animationDuration'' (new_writes cell c))
       \<and> (\<not> getBBox_throws cell \<longrightarrow>
           (\<exists>v. style c ''animationDelay'' = Some v
                \<and> seconds_within (interstitial_delay_lo k) (interstitial_delay_hi k) v)
         \<and> (\<exists>v. style c ''animationDuration'' = Some v \<and> seconds_within 4.25 5.75 v))"
proof (cases "getBBox cell")
  case (Inl ex)
  then show ?thesis
    using interstitial_cb_new_writes [OF cb] by (simp add: getBBox_throws_def)
next
  case (Inr bbox)
  have r0: "0 \<le> g 0" "g 0 < 1" and r1: "0 \<le> g 1" "g 1 < 1"
    using ud by (simp_all add: unit_draws_def)
  define v1 where "v1 = Seconds (interstitial_delay k (g 0))"
  define v2 where "v2 = Seconds (interstitial_duration (g 1))"
  have b1: "seconds_within (interstitial_delay_lo k) (interstitial_delay_hi k) v1"
    unfolding v1_def seconds_within_def using interstitial_delay_within [OF r0, of k] by simp
  have b2: "seconds_within 4.25 5.75 v2"
    unfolding v2_def seconds_within_def using interstitial_duration_bounds [OF r1] by simp
  have nw: "new_writes cell c =
      StyleSet ''transformOrigin'' (bbox_center bbox)
      # [] @ [StyleSet ''animationDelay'' v1, StyleSet ''animationDuration'' v2]"
    using interstitial_cb_new_writes [OF cb] Inr unfolding v1_def v2_def by simp
  have st: "style c ''animationDelay'' = Some v1" "style c ''animationDuration'' = Some v2"
    using interstitial_cb_style [OF cb] Inr unfolding v1_def v2_def by simp_all
  have a: "assigned ''animationDelay'' (new_writes cell c) = [v1]"
    "assigned ''animationDuration'' (new_writes cell c) = [v2]"
    unfolding nw assigned_timing_writes by simp_all
  show ?thesis unfolding a st using b1 b2 by simp
qed

text \<open>
  Claim C5 (as amended). Whatever the draws in \<open>[0, 1)\<close>, every animation-duration the
  assigner writes is in \<open>[19, 21]\<close> for a primary cell and in \<open>[4.25, 5.75]\<close> for an
  interstitial cell. Every animation-delay it writes is within the documented bounds
  evaluated in the program's own double arithmetic: between \<^verbatim>\<open>i * -1.5 - 0.4\<close> and
  \<^verbatim>\<open>i * -1.5 + 0.4\<close> for a primary cell at index \<open>i\<close>, between \<^verbatim>\<open>j * -0.6 - 0.75\<close> and
  \<^verbatim>\<open>j * -0.6 + 0.75\<close> for an interstitial cell at index \<open>j\<close>. When the assigner runs, a
  cell whose bounding box is available ends with such values in its style.
\<close>

theorem timing_within_rounded_bounds:
  fixes s :: page and g :: rng
  defines "fc \<equiv> querySelectorAll sel_foamCell (doc s)"
    and "ic \<equiv> querySelectorAll sel_interstitial (doc s)"
    and "s' \<equiv> foam_after s g"
  assumes ud: "unit_draws g" and fr: "frames s = []"
  shows "(\<forall>i<length fc.
            list_all (seconds_within (primary_delay_lo i) (primary_delay_hi i))
              (assigned ''animationDelay'' (new_writes (doc s ! (fc ! i)) (doc s' ! (fc ! i))))
          \<and> list_all (seconds_within 19 21)
              (assigned ''animationDuration'' (new_writes (doc s ! (fc ! i)) (doc s' ! (fc ! i))))
          \<and> (querySelector sel_foamCells (doc s) \<noteq> None \<and> \<not> getBBox_throws (doc s ! (fc ! i)) \<longrightarrow>
               (\<exists>v. style (doc s' ! (fc ! i)) ''animationDelay'' = Some v
                    \<and> seconds_within (primary_delay_lo i) (primary_delay_hi i) v)
             \<and> (\<exists>v. style (doc s' ! (fc ! i)) ''animationDuration'' = Some v
                    \<and> seconds_within 19 21 v)))
       \<and> (\<forall>j<length ic.
            list_all (seconds_within (interstitial_delay_lo j) (interstitial_delay_hi j))
              (assigned ''animationDelay'' (new_writes (doc s ! (ic ! j)) (doc s' ! (ic ! j))))
          \<and> list_all (seconds_within 4.25 5.75)
              (assigned ''animationDuration'' (new_writes (doc s ! (ic ! j)) (doc s' ! (ic ! j))))
          \<and> (fc \<noteq> [] \<and> querySelector sel_foamCells (doc s) \<noteq> None
                \<and> \<not> getBBox_throws (doc s ! (ic ! j)) \<longrightarrow>
               (\<exists>v. style (doc s' ! (ic ! j)) ''animationDelay'' = Some v
                    \<and> seconds_within (interstitial_delay_lo j) (interstitial_delay_hi j) v)
             \<and> (\<exists>v. style (doc s' ! (ic ! j)) ''animationDuration'' = Some v
                    \<and> seconds_within 4.25 5.75 v)))"
proof (cases "fc \<noteq> [] \<and> querySelector sel_foamCells (doc s) \<noteq> None")
  case False
  then have "s' = s"
    unfolding s'_def fc_def using foam_after_skips(2) [OF fr, of g] by blast
  then show ?thesis using False by (auto simp: new_writes_same)
next
  case True
  then have ne: "querySelectorAll sel_foamCell (doc s) \<noteq> []"
    and svg: "querySelector sel_foamCells (doc s) \<noteq> None"
    by (simp_all add: fc_def)
  have prim: "list_all (seconds_within (primary_delay_lo i) (primary_delay_hi i))
              (assigned ''animationDelay'' (new_writes (doc s ! (fc ! i)) (doc s' ! (fc ! i))))
          \<and> list_all (seconds_within 19 21)
              (assigned ''animationDuration'' (new_writes (doc s ! (fc ! i)) (doc s' ! (fc ! i))))
          \<and> (\<not> getBBox_throws (doc s ! (fc ! i)) \<longrightarrow>
               (\<exists>v. style (doc s' ! (fc ! i)) ''animationDelay'' = Some v
                    \<and> seconds_within (primary_delay_lo i) (primary_delay_hi i) v)
             \<and> (\<exists>v. style (doc s' ! (fc ! i)) ''animationDuration'' = Some v
                    \<and> seconds_within 19 21 v))"
    if i: "i < length fc" for i
  proof -
    obtain mi g' where cb: "foamCell_cb (doc s ! (fc ! i)) i (later mi g) = Inr (doc s' ! (fc ! i), g')"
      using foam_after_runs(2) [OF fr ne svg, of i g] i unfolding fc_def s'_def by blast
    show ?thesis
      using foamCell_cb_bounds [OF unit_draws_later [OF ud] cb] by blast
  qed
  have inter: "list_all (seconds_within (interstitial_delay_lo j) (interstitial_delay_hi j))
              (assigned ''animationDelay'' (new_writes (doc s ! (ic ! j)) (doc s' ! (ic ! j))))
          \<and> list_all (seconds_within 4.25 5.75)
              (assigned ''animationDuration'' (new_writes (doc s ! (ic ! j)) (doc s' ! (ic ! j))))
          \<and> (\<not> getBBox_throws (doc s ! (ic ! j)) \<longrightarrow>
               (\<exists>v. style (doc s' ! (ic ! j)) ''animationDelay'' = Some v
                    \<and> seconds_within (interstitial_delay_lo j) (interstitial_delay_hi j) v)
             \<and> (\<exists>v. style (doc s' ! (ic ! j)) ''animationDuration'' = Some v
                    \<and> seconds_within 4.25 5.75 v))"
    if j: "j < length ic" for j
  proof -
    obtain mj g' where cb: "interstitial_cb (doc s ! (ic ! j)) j (later mj g) = Inr (doc s' ! (ic ! j), g')"
      using foam_after_runs(3) [OF fr ne svg, of j g] j unfolding ic_def s'_def by blast
    show ?thesis
      using interstitial_cb_bounds [OF unit_draws_later [OF ud] cb] by blast
  qed
  show ?thesis using prim inter by blast
qed


lemma foamCell_cb_outcome:
  assumes cb: "foamCell_cb cell k g = Inr (c, g')"
  shows "getBBox_throws cell \<Longrightarrow>
           style c ''transformOrigin'' = Some (Lit ''center center'')
         \<and> new_writes cell c = [StyleSet ''transformOrigin'' (Lit ''center center'')]
         \<and> classList c = classList cell"
    and "\<not> getBBox_throws cell \<Longrightarrow>
           (\<exists>x y. style c ''transformOrigin'' = Some (PxPair x y))
         \<and> length (assigned ''transformOrigin'' (new_writes cell c)) = 1
         \<and> length (assigned ''animationDelay'' (new_writes cell c)) = 1
         \<and> length (assigned ''animationDuration'' (new_writes cell c)) = 1
         \<and> classes_added (new_writes cell c) = (if k mod 2 = 1 then [''phase-contract''] else [])
         \<and> (k mod 2 = 1 \<longrightarrow> ''phase-contract'' \<in> set (classList c))
         \<and> (k mod 2 \<noteq> 1 \<longrightarrow> classList c = classList cell)"
proof -
  show "style c ''transformOrigin'' = Some (Lit ''center center'')
         \<and> new_writes cell c = [StyleSet ''transformOrigin'' (Lit ''center center'')]
         \<and> classList c = classList cell" if "getBBox_throws cell"
    using that foamCell_cb_new_writes [OF cb] foamCell_cb_style [OF cb]
    by (cases "getBBox cell") (simp_all add: getBBox_throws_def)
  show "(\<exists>x y. style c ''transformOrigin'' = Some (PxPair x y))
         \<and> length (assigned ''transformOrigin'' (new_writes cell c)) = 1
         \<and> length (assigned ''animationDelay'' (new_writes cell c)) = 1
         \<and> length (assigned ''animationDuration'' (new_writes cell c)) = 1
         \<and> classes_added (new_writes cell c) = (if k mod 2 = 1 then [''phase-contract''] else [])
         \<and> (k mod 2 = 1 \<longrightarrow> ''phase-contract'' \<in> set (classList c))
         \<and> (k mod 2 \<noteq> 1 \<longrightarrow> classList c = classList cell)" if "\<not> getBBox_throws cell"
  proof (cases "getBBox cell")
    case (Inl ex)
    then show ?thesis using that by (simp add: getBBox_throws_def)
  next
    case (Inr bbox)
    show ?thesis
      using foamCell_cb_new_writes [OF cb] foamCell_cb_style [OF cb] Inr
      by (simp add: assigned_timing_writes bbox_center_def)
  qed
qed

lemma interstitial_cb_outcome:
  assumes cb: "interstitial_cb cell k g = Inr (c, g')"
  shows "getBBox_throws cell \<Longrightarrow>
           style c ''transformOrigin'' = Some (Lit ''center center'')
         \<and> new_writes cell c = [StyleSet ''transformOrigin'' (Lit ''center center'')]
         \<and> classList c = classList cell"
    and "\<not> getBBox_throws cell \<Longrightarrow>
           (\<exists>x y. style c ''transformOrigin'' = Some (PxPair x y))
         \<and> length (assigned ''transformOrigin'' (new_writes cell c)) = 1
         \<and> length (assigned ''animationDelay'' (new_writes cell c)) = 1
         \<and> length (assigned ''animationDuration'' (new_writes cell c)) = 1
         \<and> classes_added (new_writes cell c) = []
         \<and> classList c = classList cell"
proof -
  show "style c ''transformOrigin'' = Some (Lit ''center center'')
         \<and> new_writes cell c = [StyleSet ''transformOrigin'' (Lit ''center center'')]
         \<and> classList c = classList cell" if "getBBox_throws cell"
    using that interstitial_cb_new_writes [OF cb] interstitial_cb_style [OF cb]
    by (cases "getBBox cell") (simp_all add: getBBox_throws_def)
  show "(\<exists>x y. style c ''transformOrigin'' = Some (PxPair x y))
         \<and> length (assigned ''transformOrigin'' (new_writes cell c)) = 1
         \<and> length (assigned ''animationDelay'' (new_writes cell c)) = 1
         \<and> length (assigned ''animationDuration'' (new_writes cell c)) = 1
         \<and> classes_added (new_writes cell c) = []
         \<and> classList c = classList cell" if "\<not> getBBox_throws cell"
  proof (cases "getBBox cell")
    case (Inl ex)
    then show ?thesis using that by (simp add: getBBox_throws_def)
  next
    case (Inr bbox)
    show ?thesis
      using interstitial_cb_new_writes [OF cb] interstitial_cb_style [OF cb] Inr
      by (simp add: bbox_center_def)
  qed
qed

text \<open>
  Claim C3 (as amended). When the assigner runs, every cell of both sequences receives
  exactly one transform-origin assignment. A cell whose bounding-box query succeeds
  receives exactly one animation-delay and one animation-duration assignment, and the
  phase marker exactly when it is a primary cell at an odd index. A cell whose query
  throws receives neither delay, nor duration, nor marker. What a cell ends as is the
  callback run on that cell's own state with its own index: between cells only the
  position in the sequence of random draws is shared.
\<close>
theorem one_assignment_per_measured_cell:
  fixes s :: page and g :: rng
  defines "fc \<equiv> querySelectorAll sel_foamCell (doc s)"
    and "ic \<equiv> querySelectorAll sel_interstitial (doc s)"
    and "s' \<equiv> foam_after s g"
  assumes fr: "frames s = []" and ne: "fc \<noteq> []"
    and svg: "querySelector sel_foamCells (doc s) \<noteq> None"
  shows "(\<forall>i<length fc.
            length (assigned ''transformOrigin'' (new_writes (doc s ! (fc ! i)) (doc s' ! (fc ! i)))) = 1
          \<and> length (assigned ''animationDelay'' (new_writes (doc s ! (fc ! i)) (doc s' ! (fc ! i))))
              = (if getBBox_throws (doc s ! (fc ! i)) then 0 else 1)
          \<and> length (assigned ''animationDuration'' (new_writes (doc s ! (fc ! i)) (doc s' ! (fc ! i))))
              = (if getBBox_throws (doc s ! (fc ! i)) then 0 else 1)
          \<and> classes_added (new_writes (doc s ! (fc ! i)) (doc s' ! (fc ! i)))
              = (if \<not> getBBox_throws (doc s ! (fc ! i)) \<and> i mod 2 = 1 then [''phase-contract''] else [])
          \<and> (\<exists>m g'. foamCell_cb (doc s ! (fc ! i)) i (later m g) = Inr (doc s' ! (fc ! i), g')))
       \<and> (\<forall>j<length ic.
            length (assigned ''transformOrigin'' (new_writes (doc s ! (ic ! j)) (doc s' ! (ic ! j)))) = 1
          \<and> length (assigned ''animationDelay'' (new_writes (doc s ! (ic ! j)) (doc s' ! (ic ! j))))
              = (if getBBox_throws (doc s ! (ic ! j)) then 0 else 1)
          \<and> length (assigned ''animationDuration'' (new_writes (doc s ! (ic ! j)) (doc s' ! (ic ! j))))
              = (if getBBox_throws (doc s ! (ic ! j)) then 0 else 1)
          \<and> classes_added (new_writes (doc s ! (ic ! j)) (doc s' ! (ic ! j))) = []
          \<and> (\<exists>m g'. interstitial_cb (doc s ! (ic ! j)) j (later m g) = Inr (doc s' ! (ic ! j), g')))"
proof -
  have ne': "querySelectorAll sel_foamCell (doc s) \<noteq> []" using ne by (simp add: fc_def)
  have prim: "length (assigned ''transformOrigin'' (new_writes (doc s ! (fc ! i)) (doc s' ! (fc ! i)))) = 1
          \<and> length (assigned ''animationDelay'' (new_writes (doc s ! (fc ! i)) (doc s' ! (fc ! i))))
              = (if getBBox_throws (doc s ! (fc ! i)) then 0 else 1)
          \<and> length (assigned ''animationDuration'' (new_writes (doc s ! (fc ! i)) (doc s' ! (fc ! i))))
              = (if getBBox_throws (doc s ! (fc ! i)) then 0 else 1)
          \<and> classes_added (new_writes (doc s ! (fc ! i)) (doc s' ! (fc ! i)))
              = (if \<not> getBBox_throws (doc s ! (fc ! i)) \<and> i mod 2 = 1 then [''phase-contract''] else [])
          \<and> (\<exists>m g'. foamCell_cb (doc s ! (fc ! i)) i (later m g) = Inr (doc s' ! (fc ! i), g'))"
    if i: "i < length fc" for i
  proof -
    obtain mi g' where cb: "foamCell_cb (doc s ! (fc ! i)) i (later mi g) = Inr (doc s' ! (fc ! i), g')"
      using foam_after_runs(2) [OF fr ne' svg, of i g] i unfolding fc_def s'_def by blast
    have "\<exists>m g'. foamCell_cb (doc s ! (fc ! i)) i (later m g) = Inr (doc s' ! (fc ! i), g')"
      using cb by blast
    then show ?thesis
      using foamCell_cb_outcome [OF cb]
      by (cases "getBBox_throws (doc s ! (fc ! i))") simp_all
  qed
  have inter: "length (assigned ''transformOrigin'' (new_writes (doc s ! (ic ! j)) (doc s' ! (ic ! j)))) = 1
          \<and> length (assigned ''animationDelay'' (new_writes (doc s ! (ic ! j)) (doc s' ! (ic ! j))))
              = (if getBBox_throws (doc s ! (ic ! j)) then 0 else 1)
          \<and> length (assigned ''animationDuration'' (new_writes (doc s ! (ic ! j)) (doc s' ! (ic ! j))))
              = (if getBBox_throws (doc s ! (ic ! j)) then 0 else 1)
          \<and> classes_added (new_writes (doc s ! (ic ! j)) (doc s' ! (ic ! j))) = []
          \<and> (\<exists>m g'. interstitial_cb (doc s ! (ic ! j)) j (later m g) = Inr (doc s' ! (ic ! j), g'))"
    if j: "j < length ic" for j
  proof -
    obtain mj g' where cb: "interstitial_cb (doc s ! (ic ! j)) j (later mj g) = Inr (doc s' ! (ic ! j), g')"
      using foam_after_runs(3) [OF fr ne' svg, of j g] j unfolding ic_def s'_def by blast
    have "\<exists>m g'. interstitial_cb (doc s ! (ic ! j)) j (later m g) = Inr (doc s' ! (ic ! j), g')"
      using cb by blast
    then show ?thesis
      using interstitial_cb_outcome [OF cb]
      by (cases "getBBox_throws (doc s ! (ic ! j))") simp_all
  qed
  show ?thesis using prim inter by blast
qed

text \<open>
  Claim C8 (as amended). For a primary cell at index \<open>i\<close> the class
  \<open>phase-contract\<close> is added exactly when \<open>i mod 2 = 1\<close> and the cell's bounding-box query
  succeeds; otherwise the cell's class list is left as it was.
\<close>
theorem phase_marker_for_measured_odd_cells:
  fixes s :: page and g :: rng and i :: nat
  defines "fc \<equiv> querySelectorAll sel_foamCell (doc s)"
    and "s' \<equiv> foam_after s g"
  assumes fr: "frames s = []" and svg: "querySelector sel_foamCells (doc s) \<noteq> None"
    and i: "i < length fc"
  shows "(ClassAdd ''phase-contract'' \<in> set (new_writes (doc s ! (fc ! i)) (doc s' ! (fc ! i))))
           = (i mod 2 = 1 \<and> \<not> getBBox_throws (doc s ! (fc ! i)))
       \<and> (i mod 2 = 1 \<and> \<not> getBBox_throws (doc s ! (fc ! i))
            \<longrightarrow> hasClass ''phase-contract'' (doc s' ! (fc ! i)))
       \<and> (\<not> (i mod 2 = 1 \<and> \<not> getBBox_throws (doc s ! (fc ! i)))
            \<longrightarrow> classList (doc s' ! (fc ! i)) = classList (doc s ! (fc ! i)))"
proof -
  have ne': "querySelectorAll sel_foamCell (doc s) \<noteq> []" using i by (auto simp: fc_def)
  obtain mi g' where cb: "foamCell_cb (doc s ! (fc ! i)) i (later mi g) = Inr (doc s' ! (fc ! i), g')"
    using foam_after_runs(2) [OF fr ne' svg, of i g] i unfolding fc_def s'_def by blast
  show ?thesis
  proof (cases "getBBox (doc s ! (fc ! i))")
    case (Inl ex)
    then show ?thesis
      using foamCell_cb_new_writes [OF cb] foamCell_cb_style [OF cb]
      by (simp add: getBBox_throws_def)
  next
    case (Inr bbox)
    then show ?thesis
      using foamCell_cb_new_writes [OF cb] foamCell_cb_style [OF cb]
      by (auto simp: getBBox_throws_def hasClass_def)
  qed
qed

text \<open>
  Claim C6. The animation-frame callback never ends with an exception. When it runs,
  every cell of both sequences is processed: a cell whose \<^verbatim>\<open>getBBox()\<close> throws gets
  the transform-origin \<open>center center\<close> as its only write, and every other cell gets its
  computed origin, its delay and its duration, whichever cells failed before it.
\<close>
theorem bbox_failure_is_local:
  fixes s :: page and g :: rng
  defines "fc \<equiv> querySelectorAll sel_foamCell (doc s)"
    and "ic \<equiv> querySelectorAll sel_interstitial (doc s)"
    and "s' \<equiv> foam_after s g"
  assumes fr: "frames s = []"
  shows "\<not> isl (animation_frame (initFoamAnimation s) g)
       \<and> (fc \<noteq> [] \<and> querySelector sel_foamCells (doc s) \<noteq> None \<longrightarrow>
           (\<forall>p\<in>set fc \<union> set ic.
              (getBBox_throws (doc s ! p) \<longrightarrow>
                  style (doc s' ! p) ''transformOrigin'' = Some (Lit ''center center'')
                \<and> new_writes (doc s ! p) (doc s' ! p) = [StyleSet ''transformOrigin'' (Lit ''center center'')])
            \<and> (\<not> getBBox_throws (doc s ! p) \<longrightarrow>
                  (\<exists>x y. style (doc s' ! p) ''transformOrigin'' = Some (PxPair x y))
                \<and> length (assigned ''animationDelay'' (new_writes (doc s ! p) (doc s' ! p))) = 1
                \<and> length (assigned ''animationDuration'' (new_writes (doc s ! p) (doc s' ! p))) = 1)))"
proof (cases "fc \<noteq> [] \<and> querySelector sel_foamCells (doc s) \<noteq> None")
  case False
  then have "animation_frame (initFoamAnimation s) g = Inr (s, g)"
    unfolding fc_def using foam_after_skips(1) [OF fr, of g] by blast
  then have "\<not> isl (animation_frame (initFoamAnimation s) g)" by simp
  then show ?thesis using False by blast
next
  case True
  then have ne: "querySelectorAll sel_foamCell (doc s) \<noteq> []"
    and svg: "querySelector sel_foamCells (doc s) \<noteq> None"
    by (simp_all add: fc_def)
  have cell: "(getBBox_throws (doc s ! p) \<longrightarrow>
                  style (doc s' ! p) ''transformOrigin'' = Some (Lit ''center center'')
                \<and> new_writes (doc s ! p) (doc s' ! p) = [StyleSet ''transformOrigin'' (Lit ''center center'')])
            \<and> (\<not> getBBox_throws (doc s ! p) \<longrightarrow>
                  (\<exists>x y. style (doc s' ! p) ''transformOrigin'' = Some (PxPair x y))
                \<and> length (assigned ''animationDelay'' (new_writes (doc s ! p) (doc s' ! p))) = 1
                \<and> length (assigned ''animationDuration'' (new_writes (doc s ! p) (doc s' ! p))) = 1)"
    if p: "p \<in> set fc \<union> set ic" for p
  proof (cases "p \<in> set fc")
    case True
    then obtain i where i: "i < length fc" and pi: "fc ! i = p" by (auto simp: in_set_conv_nth)
    obtain mi g' where cb: "foamCell_cb (doc s ! p) i (later mi g) = Inr (doc s' ! p, g')"
      using foam_after_runs(2) [OF fr ne svg, of i g] i pi unfolding fc_def s'_def by blast
    show ?thesis using foamCell_cb_outcome [OF cb] by blast
  next
    case False
    then have "p \<in> set ic" using p by simp
    then obtain j where j: "j < length ic" and pj: "ic ! j = p" by (auto simp: in_set_conv_nth)
    obtain mj g' where cb: "interstitial_cb (doc s ! p) j (later mj g) = Inr (doc s' ! p, g')"
      using foam_after_runs(3) [OF fr ne svg, of j g] j pj unfolding ic_def s'_def by blast
    show ?thesis using interstitial_cb_outcome [OF cb] by blast
  qed
  show ?thesis using foam_after_runs(1) [OF fr ne svg, of g] cell by blast
qed

text \<open>
  Claim C7. With no primary cell the function changes nothing: no callback is requested,
  no element is written to, and the next animation frame leaves the page as it was, also
  when interstitial cells exist.
\<close>
theorem no_primary_cells_no_work:
  assumes "querySelectorAll sel_foamCell (doc s) = []"
  shows "initFoamAnimation s = s
       \<and> (frames s = [] \<longrightarrow> animation_frame (initFoamAnimation s) g = Inr (s, g))"
  using assms by (simp add: initFoamAnimation_skips animation_frame_idle)

text \<open>
  Claim C10. With no \<open>.foam-cells\<close> container the function changes nothing either, also
  when primary cells exist.
\<close>
theorem no_container_no_work:
  assumes "querySelector sel_foamCells (doc s) = None"
  shows "initFoamAnimation s = s
       \<and> (frames s = [] \<longrightarrow> animation_frame (initFoamAnimation s) g = Inr (s, g))"
  using assms by (simp add: initFoamAnimation_skips animation_frame_idle)

lemmas example_defs =
  foam_cell_def svg_container_def primary_ok_def primary_throws_def interstitial_ok_def
  interstitial_throws_def foam_page_def
  querySelectorAll_def querySelector_def sel_foamCell_def sel_interstitial_def sel_foamCells_def
  hasClass_def upt_rec

lemmas run_defs =
  foam_after_def animation_frame_def initFoamAnimation_def foamCell_cb_def foamCell_try_def
  interstitial_cb_def interstitial_try_def Math_random_def setStyle_def classList_add_def Let_def
  new_writes_def getBBox_throws_def quarter_draws_def

lemma unit_draws_quarter: "unit_draws quarter_draws"
  by (simp add: unit_draws_def quarter_draws_def)

lemma four_cells_queries:
  "querySelectorAll sel_foamCell (doc four_cells) = [1, 2, 3, 4]"
  "querySelectorAll sel_interstitial (doc four_cells) = [5]"
  "querySelector sel_foamCells (doc four_cells) = Some 0"
  "frames four_cells = []"
  by (simp_all add: four_cells_def example_defs)

text \<open>
  The claim as stated fails for an odd-index cell whose bounding-box query throws: the
  second primary cell of this page (index 1) receives the fallback origin and no class.
\<close>

theorem phase_marker_counterexample:
  "querySelectorAll sel_foamCell (doc odd_cell_throws) = [1, 2]
   \<and> querySelector sel_foamCells (doc odd_cell_throws) = Some 0
   \<and> (1 :: nat) mod 2 = 1
   \<and> writes (doc (foam_after odd_cell_throws quarter_draws) ! 2)
        = [StyleSet ''transformOrigin'' (Lit ''center center'')]
   \<and> \<not> hasClass ''phase-contract'' (doc (foam_after odd_cell_throws quarter_draws) ! 2)"
  by (simp add: odd_cell_throws_def example_defs run_defs)

text \<open>
  The claim as stated fails when the query throws: neither the primary nor the
  interstitial cell of this page receives a delay or a duration.
\<close>

theorem one_assignment_counterexample:
  "querySelectorAll sel_foamCell (doc throwing_cells) = [1]
   \<and> querySelectorAll sel_interstitial (doc throwing_cells) = [2]
   \<and> querySelector sel_foamCells (doc throwing_cells) = Some 0
   \<and> assigned ''animationDelay'' (writes (doc (foam_after throwing_cells quarter_draws) ! 1)) = []
   \<and> assigned ''animationDuration'' (writes (doc (foam_after throwing_cells quarter_draws) ! 1)) = []
   \<and> assigned ''animationDelay'' (writes (doc (foam_after throwing_cells quarter_draws) ! 2)) = []
   \<and> assigned ''animationDuration'' (writes (doc (foam_after throwing_cells quarter_draws) ! 2)) = []"
  by (simp add: throwing_cells_def example_defs run_defs)

lemma mixed_cells_queries:
  "querySelectorAll sel_foamCell (doc mixed_cells) = [1, 2]"
  "querySelectorAll sel_interstitial (doc mixed_cells) = [3, 4]"
  "querySelector sel_foamCells (doc mixed_cells) = Some 0"
  "frames mixed_cells = []"
  by (simp_all add: mixed_cells_def example_defs)

lemma mixed_cells_throws:
  "getBBox_throws (doc mixed_cells ! Suc 0)" "\<not> getBBox_throws (doc mixed_cells ! 2)"
  "getBBox_throws (doc mixed_cells ! 3)" "\<not> getBBox_throws (doc mixed_cells ! 4)"
  by (simp_all add: mixed_cells_def example_defs getBBox_throws_def)

lemma four_cells_throws:
  "\<not> getBBox_throws (doc four_cells ! Suc 0)" "\<not> getBBox_throws (doc four_cells ! 2)"
  "\<not> getBBox_throws (doc four_cells ! 3)" "\<not> getBBox_throws (doc four_cells ! 4)"
  "\<not> getBBox_throws (doc four_cells ! 5)"
  "classList (doc four_cells ! Suc 0) = [''foam-cell'']" "classList (doc four_cells ! 3) = [''foam-cell'']"
  by (simp_all add: four_cells_def example_defs getBBox_throws_def)

theorem one_assignment_per_measured_cell_witness:
  "frames mixed_cells = [] \<and> querySelectorAll sel_foamCell (doc mixed_cells) = [1, 2]
   \<and> querySelectorAll sel_interstitial (doc mixed_cells) = [3, 4]
   \<and> querySelector sel_foamCells (doc mixed_cells) \<noteq> None
   \<and> length (assigned ''animationDelay''
        (new_writes (doc mixed_cells ! 2) (doc (foam_after mixed_cells quarter_draws) ! 2))) = 1
   \<and> length (assigned ''animationDuration''
        (new_writes (doc mixed_cells ! 2) (doc (foam_after mixed_cells quarter_draws) ! 2))) = 1
   \<and> classes_added
        (new_writes (doc mixed_cells ! 2) (doc (foam_after mixed_cells quarter_draws) ! 2))
        = [''phase-contract'']
   \<and> length (assigned ''animationDelay''
        (new_writes (doc mixed_cells ! 1) (doc (foam_after mixed_cells quarter_draws) ! 1))) = 0
   \<and> length (assigned ''animationDelay''
        (new_writes (doc mixed_cells ! 4) (doc (foam_after mixed_cells quarter_draws) ! 4))) = 1
   \<and> length (assigned ''animationDelay''
        (new_writes (doc mixed_cells ! 3) (doc (foam_after mixed_cells quarter_draws) ! 3))) = 0"
  using one_assignment_per_measured_cell [of mixed_cells quarter_draws]
  by (simp add: mixed_cells_queries mixed_cells_throws All_less_Suc)

theorem phase_marker_for_measured_odd_cells_witness:
  "frames four_cells = [] \<and> querySelector sel_foamCells (doc four_cells) \<noteq> None
   \<and> querySelectorAll sel_foamCell (doc four_cells) = [1, 2, 3, 4]
   \<and> classList (doc (foam_after four_cells quarter_draws) ! 1) = [''foam-cell'']
   \<and> hasClass ''phase-contract'' (doc (foam_after four_cells quarter_draws) ! 2)
   \<and> classList (doc (foam_after four_cells quarter_draws) ! 3) = [''foam-cell'']
   \<and> hasClass ''phase-contract'' (doc (foam_after four_cells quarter_draws) ! 4)"
  using phase_marker_for_measured_odd_cells [of four_cells 0 quarter_draws]
    phase_marker_for_measured_odd_cells [of four_cells 1 quarter_draws]
    phase_marker_for_measured_odd_cells [of four_cells 2 quarter_draws]
    phase_marker_for_measured_odd_cells [of four_cells 3 quarter_draws]
  by (simp add: four_cells_queries four_cells_throws)

theorem timing_within_rounded_bounds_witness:
  "unit_draws quarter_draws \<and> frames four_cells = []
   \<and> querySelectorAll sel_foamCell (doc four_cells) = [1, 2, 3, 4]
   \<and> querySelectorAll sel_interstitial (doc four_cells) = [5]
   \<and> querySelector sel_foamCells (doc four_cells) \<noteq> None
   \<and> \<not> getBBox_throws (doc four_cells ! 2) \<and> \<not> getBBox_throws (doc four_cells ! 5)
   \<and> (\<exists>v. style (doc (foam_after four_cells quarter_draws) ! 2) ''animationDelay'' = Some v
          \<and> seconds_within (primary_delay_lo 1) (primary_delay_hi 1) v)
   \<and> (\<exists>v. style (doc (foam_after four_cells quarter_draws) ! 2) ''animationDuration'' = Some v
          \<and> seconds_within 19 21 v)
   \<and> (\<exists>v. style (doc (foam_after four_cells quarter_draws) ! 5) ''animationDelay'' = Some v
          \<and> seconds_within (interstitial_delay_lo 0) (interstitial_delay_hi 0) v)
   \<and> (\<exists>v. style (doc (foam_after four_cells quarter_draws) ! 5) ''animationDuration'' = Some v
          \<and> seconds_within 4.25 5.75 v)"
  using timing_within_rounded_bounds [OF unit_draws_quarter four_cells_queries(4)]
  by (simp add: unit_draws_quarter four_cells_queries four_cells_throws All_less_Suc)

text \<open>
  The claim as stated, with the bounds taken as exact real numbers, fails by a rounding
  error: with the draw \<open>1 - 2^-52\<close> the interstitial cell at index 9 gets the delay
  \<open>-5235434566818201 / 2^50\<close> (printed \<^verbatim>\<open>-4.6499999999999995\<close>), which is above
  \<open>9 * -0.6 + 0.75 = -4.65\<close>.
\<close>

theorem interstitial_delay_counterexample:
  "unit_draws top_draws
   \<and> querySelectorAll sel_interstitial (doc ten_interstitials) ! 9 = 11
   \<and> style (doc (foam_after ten_interstitials top_draws) ! 11) ''animationDelay''
        = Some (Seconds (- (5235434566818201 / 2 ^ 50)))
   \<and> \<not> seconds_within (real 9 * (- 0.6) - 0.75) (real 9 * (- 0.6) + 0.75)
         (Seconds (- (5235434566818201 / 2 ^ 50)))"
proof -
  have ud: "unit_draws top_draws" by (simp add: unit_draws_def top_draws_def)
  have fr: "frames ten_interstitials = []"
    and fc: "querySelectorAll sel_foamCell (doc ten_interstitials) = [1]"
    and ic: "querySelectorAll sel_interstitial (doc ten_interstitials) = [2, 3, 4, 5, 6, 7, 8, 9, 10, 11]"
    and svg: "querySelector sel_foamCells (doc ten_interstitials) = Some 0"
    and bb: "getBBox (doc ten_interstitials ! 11) = Inr (SVGRect 4 4 2 2)"
    by (simp_all add: ten_interstitials_def example_defs)
  have ne: "querySelectorAll sel_foamCell (doc ten_interstitials) \<noteq> []"
    and svg': "querySelector sel_foamCells (doc ten_interstitials) \<noteq> None"
    using fc svg by simp_all
  have i9: "querySelectorAll sel_interstitial (doc ten_interstitials) ! 9 = 11"
    unfolding ic by simp
  have "9 < length (querySelectorAll sel_interstitial (doc ten_interstitials))"
    unfolding ic by simp
  from foam_after_runs(3) [OF fr ne svg' this, of top_draws]
  obtain mj g' where cb: "interstitial_cb (doc ten_interstitials ! 11) 9 (later mj top_draws)
      = Inr (doc (foam_after ten_interstitials top_draws) ! 11, g')"
    unfolding i9 by blast
  have "style (doc (foam_after ten_interstitials top_draws) ! 11) ''animationDelay''
          = Some (Seconds (interstitial_delay 9 (later mj top_draws 0)))"
    using interstitial_cb_style [OF cb] bb by simp
  moreover have "later mj top_draws 0 = top_draws mj" by (simp add: later_def)
  ultimately have st: "style (doc (foam_after ten_interstitials top_draws) ! 11) ''animationDelay''
          = Some (Seconds (- (5235434566818201 / 2 ^ 50)))"
    by (simp only: interstitial_delay_index_9)
  have out: "\<not> seconds_within (real 9 * (- 0.6) - 0.75) (real 9 * (- 0.6) + 0.75)
         (Seconds (- (5235434566818201 / 2 ^ 50)))"
    by (simp add: seconds_within_def)
  show ?thesis using ud i9 st out by blast
qed


theorem bbox_failure_is_local_witness:
  "frames mixed_cells = [] \<and> querySelectorAll sel_foamCell (doc mixed_cells) = [1, 2]
   \<and> querySelectorAll sel_interstitial (doc mixed_cells) = [3, 4]
   \<and> querySelector sel_foamCells (doc mixed_cells) \<noteq> None
   \<and> getBBox_throws (doc mixed_cells ! 1) \<and> getBBox_throws (doc mixed_cells ! 3)
   \<and> \<not> isl (animation_frame (initFoamAnimation mixed_cells) quarter_draws)
   \<and> style (doc (foam_after mixed_cells quarter_draws) ! 1) ''transformOrigin''
        = Some (Lit ''center center'')
   \<and> style (doc (foam_after mixed_cells quarter_draws) ! 3) ''transformOrigin''
        = Some (Lit ''center center'')
   \<and> length (assigned ''animationDelay''
        (new_writes (doc mixed_cells ! 2) (doc (foam_after mixed_cells quarter_draws) ! 2))) = 1
   \<and> length (assigned ''animationDelay''
        (new_writes (doc mixed_cells ! 4) (doc (foam_after mixed_cells quarter_draws) ! 4))) = 1"
  using bbox_failure_is_local [of mixed_cells quarter_draws]
  by (simp add: mixed_cells_queries mixed_cells_throws)

theorem no_primary_cells_no_work_witness:
  "querySelectorAll sel_foamCell (doc interstitial_only) = []
   \<and> querySelectorAll sel_interstitial (doc interstitial_only) = [1]
   \<and> frames interstitial_only = []
   \<and> initFoamAnimation interstitial_only = interstitial_only
   \<and> animation_frame (initFoamAnimation interstitial_only) quarter_draws
        = Inr (interstitial_only, quarter_draws)"
proof -
  have h: "querySelectorAll sel_foamCell (doc interstitial_only) = []"
    and i: "querySelectorAll sel_interstitial (doc interstitial_only) = [1]"
    and f: "frames interstitial_only = []"
    by (simp_all add: interstitial_only_def example_defs)
  show ?thesis
    using h i f no_primary_cells_no_work [OF h, of quarter_draws] by auto
qed

theorem no_container_no_work_witness:
  "querySelector sel_foamCells (doc no_container) = None
   \<and> querySelectorAll sel_foamCell (doc no_container) = [0]
   \<and> frames no_container = []
   \<and> initFoamAnimation no_container = no_container
   \<and> animation_frame (initFoamAnimation no_container) quarter_draws
        = Inr (no_container, quarter_draws)"
proof -
  have h: "querySelector sel_foamCells (doc no_container) = None"
    and i: "querySelectorAll sel_foamCell (doc no_container) = [0]"
    and f: "frames no_container = []"
    by (simp_all add: no_container_def example_defs)
  show ?thesis
    using h i f no_container_no_work [OF h, of quarter_draws] by auto
qed

end
